theory Spec2Isabelle
  imports Complex_Main
begin

section \<open>Errors raised by the forecasting scripts\<close>

text \<open>
  The scripts define no exception of their own. Every failure is raised by an operation
  they call, and the constructors are named after the raising operation:
  \<^item> \<open>SourceIndexError\<close>: \<^verbatim>\<open>test_dataset[i]\<close> with \<open>i\<close> outside the dataset (the only such
    read the rollout can make is index 0 of an empty dataset: the spec's EmptySource kind);
  \<^item> \<open>IndexError\<close>: an index outside a tensor dimension (the spec's IndexOutOfRange kind);
  \<^item> \<open>ValueError\<close>: a Python integer used as a tensor index that does not fit 64 bits
    (torch: overflow when unpacking the index);
  \<^item> \<open>RuntimeError\<close>: \<^verbatim>\<open>torch.cat\<close> on tensors whose sizes differ outside the concatenated
    dimension (the spec's ShapeMismatch kind);
  \<^item> \<open>ZeroDivisionError\<close>: Python division or modulo by zero;
  \<^item> \<open>TrialPruned\<close>: \<^verbatim>\<open>optuna.exceptions.TrialPruned\<close> (the spec's Pruned kind).
\<close>

datatype error =
    SourceIndexError
  | IndexError
  | ValueError
  | RuntimeError
  | ZeroDivisionError
  | TrialPruned

section \<open>Tensors\<close>

text \<open>
  A one-dimensional tensor is a list of scalars. The scalars are only copied by the rollout,
  never computed with, so their type stays a parameter. A two-dimensional tensor carries its
  number of columns with it: a tensor of shape \<open>(0, W)\<close> has no row and still has width
  \<open>W\<close>, and \<^verbatim>\<open>torch.cat\<close> compares that width.
\<close>

record 'a tensor2 =
  ncols :: nat
  rows :: "'a list list"

definition wf_tensor2 :: "'a tensor2 \<Rightarrow> bool" where
  "wf_tensor2 t = list_all (\<lambda>r. length r = ncols t) (rows t)"

text \<open>\<^verbatim>\<open>v.unsqueeze(dim=0)\<close> of a one-dimensional tensor: shape \<open>(1, len v)\<close>.\<close>

definition unsqueeze0 :: "'a list \<Rightarrow> 'a tensor2" where
  "unsqueeze0 v = \<lparr>ncols = length v, rows = [v]\<rparr>"

text \<open>\<^verbatim>\<open>t[1:, :]\<close>: all rows but the first; an empty tensor stays empty.\<close>

definition slice_from1 :: "'a tensor2 \<Rightarrow> 'a tensor2" where
  "slice_from1 t = \<lparr>ncols = ncols t, rows = drop 1 (rows t)\<rparr>"

text \<open>
  \<^verbatim>\<open>x[-1, -2:]\<close>: the last row (an IndexError when there is none), then its last two
  entries (all of them when the row is shorter than two).
\<close>

definition last_row_last2 :: "'a tensor2 \<Rightarrow> error + 'a list" where
  "last_row_last2 x =
     (case rev (rows x) of
        [] \<Rightarrow> Inl IndexError
      | r # _ \<Rightarrow> Inr (drop (length r - 2) r))"

text \<open>
  \<^verbatim>\<open>torch.cat((a, b), axis=0)\<close> on two-dimensional tensors: the widths must agree, or
  torch raises a RuntimeError.
\<close>

definition cat_rows :: "'a tensor2 \<Rightarrow> 'a tensor2 \<Rightarrow> error + 'a tensor2" where
  "cat_rows a b =
     (if ncols a = ncols b then Inr \<lparr>ncols = ncols a, rows = rows a @ rows b\<rparr>
      else Inl RuntimeError)"

text \<open>
  \<^verbatim>\<open>v[k].item()\<close> on a one-dimensional tensor with a Python integer \<open>k\<close>. Python integers
  are unbounded, torch indices are signed 64-bit integers: an index that does not fit is a
  ValueError before the tensor is looked at. Otherwise a negative index counts from the end,
  and anything outside \<open>-len v .. len v - 1\<close> is an IndexError.
\<close>

definition int64_min :: int where
  "int64_min = - (2 ^ 63)"

definition int64_max :: int where
  "int64_max = 2 ^ 63 - 1"

definition tensor_item :: "'a list \<Rightarrow> int \<Rightarrow> error + 'a" where
  "tensor_item v k =
     (if k < int64_min \<or> int64_max < k then Inl ValueError
      else if 0 \<le> k \<and> k < int (length v) then Inr (v ! nat k)
      else if k < 0 \<and> - int (length v) \<le> k then Inr (v ! nat (int (length v) + k))
      else Inl IndexError)"

section \<open>The windowed sequence source\<close>

text \<open>
  Modelled from the spec: the class \<^verbatim>\<open>Heat_Sequence_Dataset\<close> (module \<^verbatim>\<open>dataset\<close>) is
  not among the sources. The spec gives it a length \<open>N\<close> and \<open>get(i)\<close> returning a pair
  (window, target) for \<open>0 \<le> i < N\<close>: a list of pairs, whose read outside that range fails.
\<close>

type_synonym 'a dataset = "('a tensor2 \<times> 'a list) list"

definition dataset_getitem :: "'a dataset \<Rightarrow> nat \<Rightarrow> error + ('a tensor2 \<times> 'a list)" where
  "dataset_getitem ds i = (if i < length ds then Inr (ds ! i) else Inl SourceIndexError)"

section \<open>The recurrent rollout: \<^verbatim>\<open>get_true_pred_recurrent\<close>\<close>

text \<open>
  The model is \<^verbatim>\<open>lambda seq: model(seq.unsqueeze(dim=0)).squeeze(dim=0)\<close>, a function
  from a window to a prediction vector; \<^verbatim>\<open>unscale_temperature\<close> is imported from the
  module \<^verbatim>\<open>dataset\<close> and is a parameter too. The local variables of the function are the
  fields of the state.
\<close>

record 'a rollout_state =
  seq :: "'a tensor2"
  prediction :: "'a list"
  y_true :: "'a list list"
  y_pred :: "'a list list"

text \<open>Lines 29 to 37: the first window is the dataset's own.\<close>

definition rollout_init ::
  "('a list \<Rightarrow> 'a list) \<Rightarrow> ('a tensor2 \<Rightarrow> 'a list) \<Rightarrow> 'a dataset \<Rightarrow> error + 'a rollout_state" where
  "rollout_init unscale model ds =
     (case dataset_getitem ds 0 of
        Inl e \<Rightarrow> Inl e
      | Inr (sq, y) \<Rightarrow>
          (let p = model sq
           in Inr \<lparr>seq = sq, prediction = p, y_true = [unscale y], y_pred = [unscale p]\<rparr>))"

text \<open>Lines 41 to 52: the body of the loop at index \<open>i\<close>.\<close>

definition rollout_step ::
  "('a list \<Rightarrow> 'a list) \<Rightarrow> ('a tensor2 \<Rightarrow> 'a list) \<Rightarrow> 'a dataset \<Rightarrow>
   'a rollout_state \<Rightarrow> nat \<Rightarrow> error + 'a rollout_state" where
  "rollout_step unscale model ds s i =
     (case dataset_getitem ds i of
        Inl e \<Rightarrow> Inl e
      | Inr (x, y) \<Rightarrow>
          (case last_row_last2 x of
             Inl e \<Rightarrow> Inl e
           | Inr x2 \<Rightarrow>
               (case cat_rows (slice_from1 (seq s)) (unsqueeze0 (prediction s @ x2)) of
                  Inl e \<Rightarrow> Inl e
                | Inr sq \<Rightarrow>
                    (let p = model sq
                     in Inr \<lparr>seq = sq, prediction = p,
                             y_true = y_true s @ [unscale y],
                             y_pred = y_pred s @ [unscale p]\<rparr>))))"

text \<open>Line 40: the loop over the indices, stopped by the first exception.\<close>

fun rollout_loop ::
  "('a list \<Rightarrow> 'a list) \<Rightarrow> ('a tensor2 \<Rightarrow> 'a list) \<Rightarrow> 'a dataset \<Rightarrow>
   'a rollout_state \<Rightarrow> nat list \<Rightarrow> error + 'a rollout_state" where
  "rollout_loop unscale model ds s [] = Inr s"
| "rollout_loop unscale model ds s (i # is) =
     (case rollout_step unscale model ds s i of
        Inl e \<Rightarrow> Inl e
      | Inr s' \<Rightarrow> rollout_loop unscale model ds s' is)"

definition get_true_pred_recurrent ::
  "('a list \<Rightarrow> 'a list) \<Rightarrow> ('a tensor2 \<Rightarrow> 'a list) \<Rightarrow> 'a dataset \<Rightarrow>
   error + ('a list list \<times> 'a list list)" where
  "get_true_pred_recurrent unscale model ds =
     (case rollout_init unscale model ds of
        Inl e \<Rightarrow> Inl e
      | Inr s0 \<Rightarrow>
          (case rollout_loop unscale model ds s0 [1..<length ds] of
             Inl e \<Rightarrow> Inl e
           | Inr s \<Rightarrow> Inr (y_true s, y_pred s)))"

text \<open>
  The state of the function when the loop has finished index \<open>i\<close> (index 0 is the
  initialisation): \<open>seq\<close> is the window the model was called on at step \<open>i\<close>, \<open>prediction\<close>
  is what it returned.
\<close>

definition rollout_state_at ::
  "('a list \<Rightarrow> 'a list) \<Rightarrow> ('a tensor2 \<Rightarrow> 'a list) \<Rightarrow> 'a dataset \<Rightarrow> nat \<Rightarrow>
   error + 'a rollout_state" where
  "rollout_state_at unscale model ds i =
     (case rollout_init unscale model ds of
        Inl e \<Rightarrow> Inl e
      | Inr s0 \<Rightarrow> rollout_loop unscale model ds s0 [1..<Suc i])"

section \<open>The block extractor: \<^verbatim>\<open>get_block_temperature_recurrent\<close>\<close>

text \<open>\<^verbatim>\<open>ys[i]\<close> on a Python list with an index from \<^verbatim>\<open>range\<close>.\<close>

definition list_getitem :: "'a list \<Rightarrow> nat \<Rightarrow> error + 'a" where
  "list_getitem ys i = (if i < length ys then Inr (ys ! i) else Inl IndexError)"

text \<open>
  Lines 83 to 85: for each index of \<^verbatim>\<open>y_true\<close>, entry \<^verbatim>\<open>block_number - 1\<close> of the true
  vector, then of the predicted vector, appended to the two series.
\<close>

fun block_loop ::
  "'a list list \<Rightarrow> 'a list list \<Rightarrow> int \<Rightarrow> nat list \<Rightarrow> 'a list \<times> 'a list \<Rightarrow>
   error + ('a list \<times> 'a list)" where
  "block_loop yt yp block_number [] acc = Inr acc"
| "block_loop yt yp block_number (i # is) (y_block_true, y_block_pred) =
     (case list_getitem yt i of
        Inl e \<Rightarrow> Inl e
      | Inr tv \<Rightarrow>
          (case tensor_item tv (block_number - 1) of
             Inl e \<Rightarrow> Inl e
           | Inr t \<Rightarrow>
               (case list_getitem yp i of
                  Inl e \<Rightarrow> Inl e
                | Inr pv \<Rightarrow>
                    (case tensor_item pv (block_number - 1) of
                       Inl e \<Rightarrow> Inl e
                     | Inr p \<Rightarrow>
                         block_loop yt yp block_number is
                           (y_block_true @ [t], y_block_pred @ [p])))))"

text \<open>Lines 78 to 86 on a result sequence already computed.\<close>

definition extract_block ::
  "'a list list \<Rightarrow> 'a list list \<Rightarrow> int \<Rightarrow> error + ('a list \<times> 'a list)" where
  "extract_block yt yp block_number = block_loop yt yp block_number [0..<length yt] ([], [])"

definition get_block_temperature_recurrent ::
  "('a list \<Rightarrow> 'a list) \<Rightarrow> ('a tensor2 \<Rightarrow> 'a list) \<Rightarrow> 'a dataset \<Rightarrow> int \<Rightarrow>
   error + ('a list \<times> 'a list)" where
  "get_block_temperature_recurrent unscale model ds block_number =
     (case get_true_pred_recurrent unscale model ds of
        Inl e \<Rightarrow> Inl e
      | Inr (yt, yp) \<Rightarrow> extract_block yt yp block_number)"

section \<open>The rollout as the specification describes it\<close>

text \<open>
  The specification's steps, written down from its own words and independently of the
  code, for comparison with \<open>get_true_pred_recurrent\<close>: the window and the prediction of step
  0 are the source's first window and the model's answer to it; the window of step \<open>i + 1\<close>
  is the window of step \<open>i\<close> without its oldest row, followed by one new row made of the
  prediction of step \<open>i\<close> and the last two columns of the final row of the source's window
  \<open>i + 1\<close>.
\<close>

definition exogenous :: "'a tensor2 \<Rightarrow> 'a list" where
  "exogenous x = (let r = last (rows x) in drop (length r - 2) r)"

fun spec_window :: "('a tensor2 \<Rightarrow> 'a list) \<Rightarrow> 'a dataset \<Rightarrow> nat \<Rightarrow> 'a tensor2" where
  "spec_window model ds 0 = fst (ds ! 0)"
| "spec_window model ds (Suc i) =
     (let w = spec_window model ds i
      in \<lparr>ncols = ncols w,
          rows = drop 1 (rows w) @ [model w @ exogenous (fst (ds ! Suc i))]\<rparr>)"

definition spec_prediction :: "('a tensor2 \<Rightarrow> 'a list) \<Rightarrow> 'a dataset \<Rightarrow> nat \<Rightarrow> 'a list" where
  "spec_prediction model ds i = model (spec_window model ds i)"

text \<open>The data model's invariant: every window of the source has \<open>L\<close> rows of width \<open>W\<close>.\<close>

definition wf_window :: "nat \<Rightarrow> nat \<Rightarrow> 'a tensor2 \<Rightarrow> bool" where
  "wf_window L W x = (ncols x = W \<and> length (rows x) = L \<and> wf_tensor2 x)"

definition wf_source :: "nat \<Rightarrow> nat \<Rightarrow> 'a dataset \<Rightarrow> bool" where
  "wf_source L W ds = list_all (\<lambda>p. wf_window L W (fst p)) ds"

section \<open>The training loop: \<^verbatim>\<open>train\<close>\<close>

text \<open>
  The model, the criterion, the optimizer, the scheduler and the trial are objects of torch
  and optuna. Their joint state is a value of an arbitrary type \<open>'w\<close>; what they do to it
  and what they answer are parameters. Losses are Python floats, modelled as real numbers:
  the properties below are about which value goes where, not about rounding. A data loader
  is the list of its batches, \<open>'b\<close> being the type of a batch.

  The calls that leave the function (\<^verbatim>\<open>scheduler.step\<close>, \<^verbatim>\<open>trial.report\<close>,
  \<^verbatim>\<open>plot_losses\<close>, \<^verbatim>\<open>print\<close>) are recorded, in order, with their arguments.
\<close>

datatype event =
    SchedulerStep real
  | TrialReport real int
  | PlotLosses "real list" "real list"
  | PrintProgress int real real

record 'w trial_ops =
  report :: "'w \<Rightarrow> real \<Rightarrow> int \<Rightarrow> 'w"
  should_prune :: "'w \<Rightarrow> bool \<times> 'w"

record ('w, 'b) train_env =
  model_train :: "'w \<Rightarrow> 'w"
  model_eval :: "'w \<Rightarrow> 'w"
  train_batch :: "'w \<Rightarrow> 'b \<Rightarrow> real \<times> 'w"
  eval_batch :: "'w \<Rightarrow> 'b \<Rightarrow> real"
  batch_size :: "'b \<Rightarrow> nat"
  scheduler :: "('w \<Rightarrow> real \<Rightarrow> 'w) option"
  trial :: "'w trial_ops option"
  train_loader :: "'b list"
  val_loader :: "'b list"
  n_train :: nat
  n_val :: nat
  num_epochs :: int
  epoch_freq :: int
  plot_progress :: bool
  print_progress :: bool

text \<open>
  \<open>train_batch\<close> is lines 85 to 91 with \<^verbatim>\<open>loss.item()\<close>: one optimizer step, returning the
  loss of the batch. \<open>eval_batch\<close> is lines 38 and 39 under \<^verbatim>\<open>torch.no_grad()\<close>: it reads
  the state and does not change it. \<open>batch_size\<close> is \<^verbatim>\<open>x.shape[0]\<close>; \<open>n_train\<close> and \<open>n_val\<close>
  are \<^verbatim>\<open>len(train_loader.dataset)\<close> and \<^verbatim>\<open>len(val_loader.dataset)\<close>.
\<close>

record 'w train_state =
  world :: 'w
  train_losses :: "real list"
  val_losses :: "real list"
  events :: "event list"

type_synonym 'w train_result = "(error \<times> 'w train_state) + 'w train_state"

text \<open>The state in which a run ended, normally or in an exception.\<close>

definition result_state :: "'w train_result \<Rightarrow> 'w train_state" where
  "result_state r = (case r of Inl (e, s) \<Rightarrow> s | Inr s \<Rightarrow> s)"

text \<open>Lines 33 to 41: the accumulation of \<^verbatim>\<open>calculate_test_loss\<close>.\<close>

fun test_loss_loop :: "('w, 'b) train_env \<Rightarrow> 'w \<Rightarrow> real \<Rightarrow> 'b list \<Rightarrow> real" where
  "test_loss_loop env w test_loss [] = test_loss"
| "test_loss_loop env w test_loss (b # bs) =
     test_loss_loop env w (test_loss + eval_batch env w b * real (batch_size env b)) bs"

definition calculate_test_loss :: "('w, 'b) train_env \<Rightarrow> 'w \<Rightarrow> 'b list \<Rightarrow> real \<times> 'w" where
  "calculate_test_loss env w test_loader =
     (let w' = model_eval env w in (test_loss_loop env w' 0 test_loader, w'))"

text \<open>Lines 81 to 93: the batches of one training epoch.\<close>

fun train_batches :: "('w, 'b) train_env \<Rightarrow> 'w \<Rightarrow> real \<Rightarrow> 'b list \<Rightarrow> real \<times> 'w" where
  "train_batches env w train_loss [] = (train_loss, w)"
| "train_batches env w train_loss (b # bs) =
     (case train_batch env w b of
        (loss, w') \<Rightarrow> train_batches env w' (train_loss + loss * real (batch_size env b)) bs)"

text \<open>
  Lines 79 to 109: one epoch up to and including \<^verbatim>\<open>trial.report\<close>. The result carries the
  two losses of the epoch, which the rest of the body prints.
\<close>

definition epoch_until_report ::
  "('w, 'b) train_env \<Rightarrow> int \<Rightarrow> 'w train_state \<Rightarrow>
   (error \<times> 'w train_state) + ('w train_state \<times> real \<times> real)" where
  "epoch_until_report env epoch s =
     (case train_batches env (model_train env (world s)) 0 (train_loader env) of
        (train_sum, w1) \<Rightarrow>
          if n_train env = 0 then Inl (ZeroDivisionError, s\<lparr>world := w1\<rparr>)
          else
            (let train_loss = train_sum / real (n_train env);
                 s1 = s\<lparr>world := w1, train_losses := train_losses s @ [train_loss]\<rparr>
             in case calculate_test_loss env w1 (val_loader env) of
                  (val_sum, w2) \<Rightarrow>
                    (let s2 = (case scheduler env of
                                 None \<Rightarrow> s1\<lparr>world := w2\<rparr>
                               | Some step \<Rightarrow>
                                   s1\<lparr>world := step w2 val_sum,
                                      events := events s1 @ [SchedulerStep val_sum]\<rparr>)
                     in if n_val env = 0 then Inl (ZeroDivisionError, s2)
                        else
                          (let val_loss = val_sum / real (n_val env);
                               s3 = s2\<lparr>val_losses := val_losses s2 @ [val_loss]\<rparr>;
                               s4 = (case trial env of
                                       None \<Rightarrow> s3
                                     | Some t \<Rightarrow>
                                         s3\<lparr>world := report t (world s3) val_loss epoch,
                                            events := events s3 @ [TrialReport val_loss epoch]\<rparr>)
                           in Inr (s4, train_loss, val_loss)))))"

text \<open>Lines 111 and 112.\<close>

definition prune_check :: "('w, 'b) train_env \<Rightarrow> 'w train_state \<Rightarrow> 'w train_result" where
  "prune_check env s =
     (case trial env of
        None \<Rightarrow> Inr s
      | Some t \<Rightarrow>
          (case should_prune t (world s) of
             (stop, w) \<Rightarrow>
               if stop then Inl (TrialPruned, s\<lparr>world := w\<rparr>) else Inr (s\<lparr>world := w\<rparr>)))"

text \<open>Lines 114 to 118; \<^verbatim>\<open>epoch % 0\<close> is a ZeroDivisionError.\<close>

definition periodic_report ::
  "('w, 'b) train_env \<Rightarrow> int \<Rightarrow> real \<Rightarrow> real \<Rightarrow> 'w train_state \<Rightarrow> 'w train_result" where
  "periodic_report env epoch train_loss val_loss s =
     (if epoch_freq env = 0 then Inl (ZeroDivisionError, s)
      else if epoch mod epoch_freq env = 0 then
        Inr (s\<lparr>events := events s
                 @ (if plot_progress env then [PlotLosses (train_losses s) (val_losses s)] else [])
                 @ (if print_progress env then [PrintProgress epoch train_loss val_loss] else [])\<rparr>)
      else Inr s)"

definition train_epoch :: "('w, 'b) train_env \<Rightarrow> int \<Rightarrow> 'w train_state \<Rightarrow> 'w train_result" where
  "train_epoch env epoch s =
     (case epoch_until_report env epoch s of
        Inl e \<Rightarrow> Inl e
      | Inr (s4, train_loss, val_loss) \<Rightarrow>
          (case prune_check env s4 of
             Inl e \<Rightarrow> Inl e
           | Inr s5 \<Rightarrow> periodic_report env epoch train_loss val_loss s5))"

text \<open>Line 78: the epochs in order, stopped by the first exception.\<close>

fun train_loop :: "('w, 'b) train_env \<Rightarrow> int list \<Rightarrow> 'w train_state \<Rightarrow> 'w train_result" where
  "train_loop env [] s = Inr s"
| "train_loop env (epoch # epochs) s =
     (case train_epoch env epoch s of
        Inl e \<Rightarrow> Inl e
      | Inr s' \<Rightarrow> train_loop env epochs s')"

definition init_state :: "'w \<Rightarrow> 'w train_state" where
  "init_state w = \<lparr>world = w, train_losses = [], val_losses = [], events = []\<rparr>"

definition train :: "('w, 'b) train_env \<Rightarrow> 'w \<Rightarrow> 'w train_result" where
  "train env w = train_loop env [1..num_epochs env] (init_state w)"

text \<open>
  What \<^verbatim>\<open>trial.should_prune()\<close> answers in the epoch \<open>epoch\<close> started in state \<open>s\<close>; false
  when the epoch does not get that far or no trial is given.
\<close>

definition prune_signal :: "('w, 'b) train_env \<Rightarrow> int \<Rightarrow> 'w train_state \<Rightarrow> bool" where
  "prune_signal env epoch s =
     (case epoch_until_report env epoch s of
        Inl e \<Rightarrow> False
      | Inr (s4, train_loss, val_loss) \<Rightarrow>
          (case trial env of
             None \<Rightarrow> False
           | Some t \<Rightarrow> fst (should_prune t (world s4))))"

text \<open>The arguments of the recorded calls.\<close>

fun scheduler_args :: "event list \<Rightarrow> real list" where
  "scheduler_args [] = []"
| "scheduler_args (SchedulerStep v # es) = v # scheduler_args es"
| "scheduler_args (e # es) = scheduler_args es"

fun trial_reports :: "event list \<Rightarrow> (real \<times> int) list" where
  "trial_reports [] = []"
| "trial_reports (TrialReport v epoch # es) = (v, epoch) # trial_reports es"
| "trial_reports (e # es) = trial_reports es"

text \<open>
  The validation loss before the division, as the specification words it: the sum over the
  batches of the validation loader of the loss of the batch times its size. It is taken
  in the state in which the validation of the epoch started in \<open>s\<close> runs: after the
  training batches and \<^verbatim>\<open>model.eval()\<close>.
\<close>

definition weighted_val_sum :: "('w, 'b) train_env \<Rightarrow> 'w \<Rightarrow> real" where
  "weighted_val_sum env w =
     (\<Sum>b\<leftarrow>val_loader env. eval_batch env w b * real (batch_size env b))"

definition validation_world :: "('w, 'b) train_env \<Rightarrow> 'w train_state \<Rightarrow> 'w" where
  "validation_world env s =
     model_eval env (snd (train_batches env (model_train env (world s)) 0 (train_loader env)))"

text \<open>
  The state of the collaborators once the scheduler, when there is one, has been stepped
  with that sum in the epoch started in \<open>s\<close>.
\<close>

definition scheduled_world :: "('w, 'b) train_env \<Rightarrow> 'w train_state \<Rightarrow> 'w" where
  "scheduled_world env s =
     (case scheduler env of
        None \<Rightarrow> validation_world env s
      | Some step \<Rightarrow>
          step (validation_world env s) (weighted_val_sum env (validation_world env s)))"

text \<open>
  What holds of the histories and of the recorded calls at every moment a run can end in:
  each validation loss is a scheduler argument divided by the number of validation
  examples, and it is what was reported to the trial.
\<close>

definition loss_invariant :: "('w, 'b) train_env \<Rightarrow> 'w train_state \<Rightarrow> bool" where
  "loss_invariant env s =
     (val_losses s = map (\<lambda>v. v / real (n_val env)) (scheduler_args (events s))
      \<and> (trial env = None \<or> map fst (trial_reports (events s)) = val_losses s))"

section \<open>A concrete scenario\<close>

text \<open>
  The scenario of the specification: windows of \<open>L = 3\<close> rows and \<open>W = 4\<close> columns (two
  prediction columns, two exogenous ones), \<open>B = 2\<close> blocks, \<open>N = 3\<close> steps. The model adds
  one to the prediction columns of the last row it is given, so that it answers \<open>[1, 1]\<close>,
  \<open>[2, 2]\<close>, \<open>[3, 3]\<close> when it is fed its own outputs and something else when it is fed
  the source's columns.
\<close>

definition ex_model :: "int tensor2 \<Rightarrow> int list" where
  "ex_model w =
     (case rev (rows w) of
        (a # b # _) # _ \<Rightarrow> [a + 1, b + 1]
      | _ \<Rightarrow> [1, 1])"

definition ex_unscale :: "int list \<Rightarrow> int list" where
  "ex_unscale = map (\<lambda>v. 10 * v + 5)"

text \<open>A model that answers three values, whatever the window.\<close>

definition ex_model_three :: "int tensor2 \<Rightarrow> int list" where
  "ex_model_three w = [1, 1, 1]"

definition ex_source :: "int dataset" where
  "ex_source =
     [(\<lparr>ncols = 4, rows = [[7, 7, 50, 51], [8, 8, 52, 53], [0, 0, 54, 55]]\<rparr>, [100, 101]),
      (\<lparr>ncols = 4, rows = [[8, 8, 52, 53], [0, 0, 54, 55], [9, 9, 56, 57]]\<rparr>, [102, 103]),
      (\<lparr>ncols = 4, rows = [[0, 0, 54, 55], [9, 9, 56, 57], [4, 4, 58, 59]]\<rparr>, [104, 105])]"

text \<open>
  A second source: its second window is wider than the first (five columns, not four) and
  has other prediction columns.
\<close>

definition ex_source_wide :: "int dataset" where
  "ex_source_wide =
     [(\<lparr>ncols = 4, rows = [[7, 7, 50, 51], [8, 8, 52, 53], [0, 0, 54, 55]]\<rparr>, [100, 101]),
      (\<lparr>ncols = 5, rows = [[1, 8, 8, 52, 53], [1, 0, 0, 54, 55], [1, 6, 6, 56, 57]]\<rparr>,
       [102, 103])]"

text \<open>A result sequence of three steps over two blocks.\<close>

definition ex_true :: "int list list" where
  "ex_true = [[1005, 1015], [1025, 1035], [1045, 1055]]"

definition ex_pred :: "int list list" where
  "ex_pred = [[15, 16], [25, 26], [35, 36]]"

text \<open>
  A training run with stubs. The state of the collaborators records what they were called
  with: the number of optimizer steps made, the values the scheduler was stepped with, and
  the reports the trial received. A batch is its size; the training loss of a batch is its
  size, its validation loss is the number of optimizer steps made. The trial asks for
  pruning once epoch 2 has been reported.
\<close>

record ex_world =
  opt_steps :: nat
  sched_seen :: "real list"
  trial_seen :: "(real \<times> int) list"

definition ex_world0 :: ex_world where
  "ex_world0 = \<lparr>opt_steps = 0, sched_seen = [], trial_seen = []\<rparr>"

definition ex_trial :: "ex_world trial_ops" where
  "ex_trial =
     \<lparr>report = (\<lambda>w v epoch. w\<lparr>trial_seen := trial_seen w @ [(v, epoch)]\<rparr>),
      should_prune = (\<lambda>w. (trial_seen w \<noteq> [] \<and> 2 \<le> snd (last (trial_seen w)), w))\<rparr>"

definition ex_env :: "(ex_world, nat) train_env" where
  "ex_env =
     \<lparr>model_train = (\<lambda>w. w),
      model_eval = (\<lambda>w. w),
      train_batch = (\<lambda>w b. (real b, w\<lparr>opt_steps := Suc (opt_steps w)\<rparr>)),
      eval_batch = (\<lambda>w b. real (opt_steps w)),
      batch_size = (\<lambda>b. b),
      scheduler = Some (\<lambda>w v. w\<lparr>sched_seen := sched_seen w @ [v]\<rparr>),
      trial = Some ex_trial,
      train_loader = [2, 3],
      val_loader = [4],
      n_train = 5,
      n_val = 4,
      num_epochs = 5,
      epoch_freq = 2,
      plot_progress = True,
      print_progress = False\<rparr>"

section \<open>An empty source\<close>

text \<open>
  C6. On a dataset of length 0 the rollout fails: the first statement reads index 0, which
  the dataset does not have, and the dataset's error leaves the function. No result, and in
  particular no empty result sequence, is returned.
\<close>

theorem rollout_empty_source_fails:
  "get_true_pred_recurrent unscale model [] = Inl SourceIndexError
   \<and> get_true_pred_recurrent unscale model [] \<noteq> Inr ([], [])"
  by (simp add: get_true_pred_recurrent_def rollout_init_def dataset_getitem_def)

section \<open>Facts about the rollout loop\<close>

lemma rollout_loop_append:
  "rollout_loop unscale model ds s (xs @ ys) =
     (case rollout_loop unscale model ds s xs of
        Inl e \<Rightarrow> Inl e
      | Inr s' \<Rightarrow> rollout_loop unscale model ds s' ys)"
  by (induction xs arbitrary: s) (auto split: sum.splits)

lemma rollout_state_at_0:
  "rollout_state_at unscale model ds 0 = rollout_init unscale model ds"
  by (simp add: rollout_state_at_def split: sum.splits)

lemma rollout_state_at_Suc:
  "rollout_state_at unscale model ds (Suc i) =
     (case rollout_state_at unscale model ds i of
        Inl e \<Rightarrow> Inl e
      | Inr s \<Rightarrow> rollout_step unscale model ds s (Suc i))"
proof -
  have "[1..<Suc (Suc i)] = [1..<Suc i] @ [Suc i]" by simp
  then show ?thesis
    unfolding rollout_state_at_def
    by (simp only: rollout_loop_append) (auto split: sum.splits)
qed

text \<open>The function returns the histories of the state reached at the last index.\<close>

lemma get_true_pred_recurrent_state_at:
  "ds \<noteq> [] \<Longrightarrow> get_true_pred_recurrent unscale model ds =
     (case rollout_state_at unscale model ds (length ds - 1) of
        Inl e \<Rightarrow> Inl e
      | Inr s \<Rightarrow> Inr (y_true s, y_pred s))"
  by (cases ds) (auto simp: get_true_pred_recurrent_def rollout_state_at_def split: sum.splits)

lemma rollout_init_Cons:
  "ds \<noteq> [] \<Longrightarrow> rollout_init unscale model ds =
     Inr \<lparr>seq = fst (ds ! 0), prediction = model (fst (ds ! 0)),
          y_true = [unscale (snd (ds ! 0))], y_pred = [unscale (model (fst (ds ! 0)))]\<rparr>"
  by (cases "ds ! 0") (simp add: rollout_init_def dataset_getitem_def Let_def)

text \<open>When one pass of the loop body succeeds, and what it leaves.\<close>

lemma rollout_step_Inr:
  "rollout_step unscale model ds s i = Inr s' \<longleftrightarrow>
     i < length ds \<and> rows (fst (ds ! i)) \<noteq> []
     \<and> ncols (seq s) = length (prediction s) + length (exogenous (fst (ds ! i)))
     \<and> s' = (let sq = \<lparr>ncols = ncols (seq s),
                       rows = drop 1 (rows (seq s)) @ [prediction s @ exogenous (fst (ds ! i))]\<rparr>
            in \<lparr>seq = sq, prediction = model sq,
                y_true = y_true s @ [unscale (snd (ds ! i))],
                y_pred = y_pred s @ [unscale (model sq)]\<rparr>)"
  by (cases "rows (fst (ds ! i))" rule: rev_cases)
     (auto simp: rollout_step_def dataset_getitem_def last_row_last2_def cat_rows_def
        slice_from1_def unsqueeze0_def exogenous_def Let_def
        split: sum.splits prod.splits list.splits)

lemma rollout_step_RuntimeError:
  assumes "i < length ds" and "rows (fst (ds ! i)) \<noteq> []"
    and "ncols (seq s) \<noteq> length (prediction s) + length (exogenous (fst (ds ! i)))"
  shows "rollout_step unscale model ds s i = Inl RuntimeError"
  using assms
  by (cases "ds ! i"; cases "rows (fst (ds ! i))" rule: rev_cases)
     (auto simp: rollout_step_def dataset_getitem_def last_row_last2_def cat_rows_def
        slice_from1_def unsqueeze0_def exogenous_def Let_def)

lemma rollout_state_at_prediction:
  "rollout_state_at unscale model ds i = Inr s \<Longrightarrow> prediction s = model (seq s)"
proof (cases i)
  case 0
  assume "rollout_state_at unscale model ds i = Inr s"
  with 0 show ?thesis
    by (auto simp: rollout_state_at_0 rollout_init_def Let_def split: sum.splits prod.splits)
next
  case (Suc j)
  assume "rollout_state_at unscale model ds i = Inr s"
  with Suc show ?thesis
    by (auto simp: rollout_state_at_Suc rollout_step_Inr Let_def split: sum.splits)
qed

lemma rollout_state_at_step:
  assumes "rollout_state_at unscale model ds i = Inr s"
    and "rollout_state_at unscale model ds (Suc i) = Inr s'"
  shows "rollout_step unscale model ds s (Suc i) = Inr s'"
  using assms by (simp add: rollout_state_at_Suc)

lemma rollout_state_at_Suc_prev:
  assumes "rollout_state_at unscale model ds (Suc i) = Inr s'"
  shows "\<exists>s. rollout_state_at unscale model ds i = Inr s"
  using assms by (auto simp: rollout_state_at_Suc split: sum.splits)

lemma exogenous_length:
  "rows x \<noteq> [] \<Longrightarrow> 2 \<le> length (last (rows x)) \<Longrightarrow> length (exogenous x) = 2"
  by (simp add: exogenous_def Let_def)

lemma last_row_last2_exogenous:
  "rows x \<noteq> [] \<Longrightarrow> last_row_last2 x = Inr (exogenous x)"
  by (cases "rows x" rule: rev_cases) (simp_all add: last_row_last2_def exogenous_def)

text \<open>The scenario, evaluated.\<close>

lemmas rollout_eval =
  get_true_pred_recurrent_def rollout_state_at_def rollout_init_def rollout_step_def
  dataset_getitem_def last_row_last2_def cat_rows_def slice_from1_def unsqueeze0_def Let_def

lemma ex_model_length: "length (ex_model w) = 2"
  by (simp add: ex_model_def split: list.splits)

lemma ex_state_0:
  "rollout_state_at ex_unscale ex_model ex_source 0 =
     Inr \<lparr>seq = \<lparr>ncols = 4, rows = [[7, 7, 50, 51], [8, 8, 52, 53], [0, 0, 54, 55]]\<rparr>,
          prediction = [1, 1], y_true = [[1005, 1015]], y_pred = [[15, 15]]\<rparr>"
  by (simp add: rollout_eval ex_source_def ex_model_def ex_unscale_def)

lemma ex_state_1:
  "rollout_state_at ex_unscale ex_model ex_source (Suc 0) =
     Inr \<lparr>seq = \<lparr>ncols = 4, rows = [[8, 8, 52, 53], [0, 0, 54, 55], [1, 1, 56, 57]]\<rparr>,
          prediction = [2, 2],
          y_true = [[1005, 1015], [1025, 1035]], y_pred = [[15, 15], [25, 25]]\<rparr>"
  by (simp add: rollout_eval ex_source_def ex_model_def ex_unscale_def)

lemma ex_state_2:
  "rollout_state_at ex_unscale ex_model ex_source (Suc (Suc 0)) =
     Inr \<lparr>seq = \<lparr>ncols = 4, rows = [[0, 0, 54, 55], [1, 1, 56, 57], [2, 2, 58, 59]]\<rparr>,
          prediction = [3, 3],
          y_true = [[1005, 1015], [1025, 1035], [1045, 1055]],
          y_pred = [[15, 15], [25, 25], [35, 35]]\<rparr>"
  by (simp add: rollout_eval ex_source_def ex_model_def ex_unscale_def)

lemma ex_source_wf: "wf_source 3 4 ex_source"
  by (simp add: wf_source_def wf_window_def wf_tensor2_def ex_source_def)

section \<open>The row appended at each step\<close>

text \<open>
  C1. Let step \<open>i\<close> and step \<open>i + 1\<close> of the rollout both have been reached. The prediction
  held after step \<open>i\<close> is the model's raw answer to the window of step \<open>i\<close>. The last row of
  the window of step \<open>i + 1\<close> is that prediction followed by the last two columns of the final
  row of the source's window \<open>i + 1\<close>: its first columns are the prediction (not the unscaled
  value kept in \<open>y_pred\<close>, not a target, not columns of the source's window), the remaining
  ones are the exogenous columns as read from the source. The model is then called on that
  window.
\<close>

theorem rollout_new_row:
  assumes "rollout_state_at unscale model ds i = Inr s"
    and "rollout_state_at unscale model ds (Suc i) = Inr s'"
  shows "prediction s = model (seq s)
       \<and> last_row_last2 (fst (ds ! Suc i)) = Inr (exogenous (fst (ds ! Suc i)))
       \<and> last (rows (seq s')) = prediction s @ exogenous (fst (ds ! Suc i))
       \<and> take (length (prediction s)) (last (rows (seq s'))) = prediction s
       \<and> drop (length (prediction s)) (last (rows (seq s'))) = exogenous (fst (ds ! Suc i))
       \<and> prediction s' = model (seq s')"
proof -
  have step: "rollout_step unscale model ds s (Suc i) = Inr s'"
    using assms by (rule rollout_state_at_step)
  have p: "prediction s = model (seq s)"
    using assms(1) by (rule rollout_state_at_prediction)
  have p': "prediction s' = model (seq s')"
    using assms(2) by (rule rollout_state_at_prediction)
  from step have ne: "rows (fst (ds ! Suc i)) \<noteq> []"
    and sq: "rows (seq s') = drop 1 (rows (seq s)) @ [prediction s @ exogenous (fst (ds ! Suc i))]"
    by (simp_all add: rollout_step_Inr Let_def)
  from ne have ex: "last_row_last2 (fst (ds ! Suc i)) = Inr (exogenous (fst (ds ! Suc i)))"
    by (rule last_row_last2_exogenous)
  from sq have l: "last (rows (seq s')) = prediction s @ exogenous (fst (ds ! Suc i))"
    by simp
  show ?thesis using p p' ex l by simp
qed

text \<open>
  In the scenario, at step 2: the source's third window ends with the row
  \<open>[4, 4, 58, 59]\<close> and the target of step 1 is \<open>[102, 103]\<close>, unscaled prediction
  \<open>[25, 25]\<close>; the appended row is \<open>[2, 2, 58, 59]\<close>.
\<close>

theorem rollout_new_row_witness:
  "rollout_state_at ex_unscale ex_model ex_source (Suc 0) =
     Inr \<lparr>seq = \<lparr>ncols = 4, rows = [[8, 8, 52, 53], [0, 0, 54, 55], [1, 1, 56, 57]]\<rparr>,
          prediction = [2, 2],
          y_true = [[1005, 1015], [1025, 1035]], y_pred = [[15, 15], [25, 25]]\<rparr>
   \<and> (\<exists>s'. rollout_state_at ex_unscale ex_model ex_source (Suc (Suc 0)) = Inr s'
         \<and> last (rows (seq s')) = [2, 2, 58, 59]
         \<and> take 2 (last (rows (seq s'))) = [2, 2]
         \<and> drop 2 (last (rows (seq s'))) = [58, 59]
         \<and> prediction s' = ex_model (seq s'))"
proof -
  have e: "exogenous (fst (ex_source ! Suc (Suc 0))) = [58, 59]"
    by (simp add: exogenous_def ex_source_def)
  show ?thesis
    using rollout_new_row[OF ex_state_1 ex_state_2] ex_state_1 ex_state_2 e by simp
qed

section \<open>The length of the window\<close>

text \<open>
  C4. Let step \<open>i\<close> of the rollout have been reached and the first window of the source have
  \<open>L\<close> rows, with \<open>L\<close> positive (or every window of the source having \<open>L\<close> rows, as the
  data model asks). The window the model was called on at step \<open>i\<close> has \<open>L\<close> rows, and so
  has the window of step \<open>i + 1\<close> when that step is reached: the step removes the oldest row
  and nothing else (what is left before the new last row is the old window without its first
  row) and appends one row.
\<close>

theorem window_length_invariant:
  assumes "rollout_state_at unscale model ds i = Inr s"
    and "length (rows (fst (ds ! 0))) = L"
    and "0 < L \<or> list_all (\<lambda>p. length (rows (fst p)) = L) ds"
  shows "length (rows (seq s)) = L
       \<and> (\<forall>s'. rollout_state_at unscale model ds (Suc i) = Inr s' \<longrightarrow>
            length (rows (seq s')) = L
            \<and> butlast (rows (seq s')) = tl (rows (seq s)))"
proof -
  have len: "rollout_state_at unscale model ds j = Inr t \<Longrightarrow> length (rows (seq t)) = L" for j t
  proof (induction j arbitrary: t)
    case 0
    then show ?case using assms(2)
      by (auto simp: rollout_state_at_0 rollout_init_def dataset_getitem_def Let_def
          split: sum.splits prod.splits if_splits)
  next
    case (Suc j)
    from Suc.prems obtain t0 where t0: "rollout_state_at unscale model ds j = Inr t0"
      using rollout_state_at_Suc_prev by blast
    then have l0: "length (rows (seq t0)) = L" by (rule Suc.IH)
    have step: "rollout_step unscale model ds t0 (Suc j) = Inr t"
      using t0 Suc.prems by (rule rollout_state_at_step)
    then have in_range: "Suc j < length ds" and ne: "rows (fst (ds ! Suc j)) \<noteq> []"
      and sq: "length (rows (seq t)) = length (rows (seq t0)) - 1 + 1"
      by (simp_all add: rollout_step_Inr Let_def)
    have "0 < L"
    proof (rule ccontr)
      assume "\<not> 0 < L"
      with assms(3) have "list_all (\<lambda>p. length (rows (fst p)) = L) ds" and "L = 0" by simp_all
      with in_range have "rows (fst (ds ! Suc j)) = []"
        by (simp add: list_all_length)
      with ne show False by simp
    qed
    with sq l0 show ?case by simp
  qed
  have "length (rows (seq s)) = L" using assms(1) by (rule len)
  moreover have "length (rows (seq s')) = L \<and> butlast (rows (seq s')) = tl (rows (seq s))"
    if "rollout_state_at unscale model ds (Suc i) = Inr s'" for s'
  proof -
    have "rollout_step unscale model ds s (Suc i) = Inr s'"
      using assms(1) that by (rule rollout_state_at_step)
    then have "rows (seq s') = drop 1 (rows (seq s)) @ [prediction s @ exogenous (fst (ds ! Suc i))]"
      by (simp add: rollout_step_Inr Let_def)
    then have "butlast (rows (seq s')) = tl (rows (seq s))"
      by (simp add: drop_Suc)
    with len[OF that] show ?thesis by simp
  qed
  ultimately show ?thesis by blast
qed

text \<open>In the scenario, at steps 1 and 2, with \<open>L = 3\<close>.\<close>

theorem window_length_invariant_witness:
  "(\<exists>s. rollout_state_at ex_unscale ex_model ex_source (Suc 0) = Inr s
        \<and> length (rows (seq s)) = 3
        \<and> (\<exists>s'. rollout_state_at ex_unscale ex_model ex_source (Suc (Suc 0)) = Inr s'
              \<and> length (rows (seq s')) = 3
              \<and> butlast (rows (seq s')) = tl (rows (seq s))))
   \<and> length (rows (fst (ex_source ! 0))) = 3 \<and> (0::nat) < 3"
proof -
  have l: "length (rows (fst (ex_source ! 0))) = 3" by (simp add: ex_source_def)
  have p: "(0::nat) < 3 \<or> list_all (\<lambda>p. length (rows (fst p)) = 3) ex_source" by simp
  show ?thesis
    using window_length_invariant[OF ex_state_1 l p] ex_state_1 ex_state_2 l by simp
qed

section \<open>The result sequence\<close>

lemma wf_source_nth:
  assumes "wf_source L W ds" and "i < length ds"
  shows "wf_window L W (fst (ds ! i))"
  using assms by (simp add: wf_source_def list_all_length)

lemma wf_window_exogenous:
  assumes "wf_window L W x" and "0 < L" and "2 \<le> W"
  shows "rows x \<noteq> []" and "length (exogenous x) = 2"
proof -
  show ne: "rows x \<noteq> []"
    using assms(1,2) by (auto simp: wf_window_def)
  have "length (last (rows x)) = W"
    using assms(1) ne by (simp add: wf_window_def wf_tensor2_def list_all_iff)
  then have "2 \<le> length (last (rows x))" using assms(3) by simp
  with ne show "length (exogenous x) = 2" by (rule exogenous_length)
qed

lemma spec_window_wf:
  assumes wf: "wf_source L W ds" and L: "0 < L" and W: "2 \<le> W"
    and m: "\<And>w. wf_window L W w \<Longrightarrow> length (model w) = W - 2"
  shows "i < length ds \<Longrightarrow> wf_window L W (spec_window model ds i)"
proof (induction i)
  case 0
  with wf show ?case by (simp add: wf_source_nth)
next
  case (Suc i)
  then have IH: "wf_window L W (spec_window model ds i)" by simp
  have "wf_window L W (fst (ds ! Suc i))" using wf Suc.prems by (rule wf_source_nth)
  then have ex: "length (exogenous (fst (ds ! Suc i))) = 2"
    using L W by (rule wf_window_exogenous)
  have ml: "length (model (spec_window model ds i)) = W - 2" using IH by (rule m)
  have "set (drop 1 (rows (spec_window model ds i))) \<subseteq> set (rows (spec_window model ds i))"
    by (rule set_drop_subset)
  then have "\<forall>r\<in>set (drop 1 (rows (spec_window model ds i))). length r = W"
    using IH by (auto simp: wf_window_def wf_tensor2_def list_all_iff)
  then show ?case
    using IH ex ml L W
    by (simp add: wf_window_def wf_tensor2_def list_all_iff Let_def)
qed

lemma rollout_state_at_spec:
  assumes wf: "wf_source L W ds" and L: "0 < L" and W: "2 \<le> W"
    and m: "\<And>w. wf_window L W w \<Longrightarrow> length (model w) = W - 2"
  shows "i < length ds \<Longrightarrow>
     rollout_state_at unscale model ds i =
       Inr \<lparr>seq = spec_window model ds i, prediction = spec_prediction model ds i,
            y_true = map (\<lambda>k. unscale (snd (ds ! k))) [0..<Suc i],
            y_pred = map (\<lambda>k. unscale (spec_prediction model ds k)) [0..<Suc i]\<rparr>"
proof (induction i)
  case 0
  then have "ds \<noteq> []" by auto
  then show ?case
    by (simp add: rollout_state_at_0 rollout_init_Cons spec_prediction_def)
next
  case (Suc i)
  then have IH: "rollout_state_at unscale model ds i =
       Inr \<lparr>seq = spec_window model ds i, prediction = spec_prediction model ds i,
            y_true = map (\<lambda>k. unscale (snd (ds ! k))) [0..<Suc i],
            y_pred = map (\<lambda>k. unscale (spec_prediction model ds k)) [0..<Suc i]\<rparr>"
    by simp
  have "wf_window L W (fst (ds ! Suc i))" using wf Suc.prems by (rule wf_source_nth)
  then have ne: "rows (fst (ds ! Suc i)) \<noteq> []" and ex: "length (exogenous (fst (ds ! Suc i))) = 2"
    using L W by (rule wf_window_exogenous)+
  have "i < length ds" using Suc.prems by linarith
  with wf L W m have wi: "wf_window L W (spec_window model ds i)" by (rule spec_window_wf)
  then have "length (model (spec_window model ds i)) = W - 2" by (rule m)
  moreover have "ncols (spec_window model ds i) = W" using wi by (simp add: wf_window_def)
  ultimately have width:
    "ncols (spec_window model ds i) = length (spec_prediction model ds i) + 2"
    using W by (simp add: spec_prediction_def)
  show ?case
    unfolding rollout_state_at_Suc IH
    using Suc.prems ne ex width
    by (simp add: rollout_step_Inr Let_def spec_prediction_def)
qed

lemma rollout_state_at_histories:
  "rollout_state_at unscale model ds i = Inr s \<Longrightarrow>
     length (y_true s) = Suc i \<and> length (y_pred s) = Suc i
     \<and> (\<forall>k\<le>i. y_true s ! k = unscale (snd (ds ! k))
           \<and> (\<exists>t. rollout_state_at unscale model ds k = Inr t
                  \<and> y_pred s ! k = unscale (prediction t)))"
proof (induction i arbitrary: s)
  case 0
  then have "ds \<noteq> []"
    by (auto simp: rollout_state_at_0 rollout_init_def dataset_getitem_def split: if_splits)
  with 0 have "s = \<lparr>seq = fst (ds ! 0), prediction = model (fst (ds ! 0)),
          y_true = [unscale (snd (ds ! 0))], y_pred = [unscale (model (fst (ds ! 0)))]\<rparr>"
    by (simp add: rollout_state_at_0 rollout_init_Cons)
  with 0 show ?case by simp
next
  case (Suc i)
  from Suc.prems obtain s0 where s0: "rollout_state_at unscale model ds i = Inr s0"
    using rollout_state_at_Suc_prev by blast
  note IH = Suc.IH[OF s0]
  have step: "rollout_step unscale model ds s0 (Suc i) = Inr s"
    using s0 Suc.prems by (rule rollout_state_at_step)
  then have yt: "y_true s = y_true s0 @ [unscale (snd (ds ! Suc i))]"
    and yp: "y_pred s = y_pred s0 @ [unscale (prediction s)]"
    by (simp_all add: rollout_step_Inr Let_def)
  have "y_true s ! k = unscale (snd (ds ! k))
        \<and> (\<exists>t. rollout_state_at unscale model ds k = Inr t
               \<and> y_pred s ! k = unscale (prediction t))" if "k \<le> Suc i" for k
  proof (cases "k = Suc i")
    case True
    then show ?thesis using yt yp IH Suc.prems by (simp add: nth_append)
  next
    case False
    with that have "k \<le> i" by simp
    then show ?thesis using yt yp IH by (simp add: nth_append)
  qed
  then show ?case using yt yp IH by simp
qed

lemma get_true_pred_recurrent_Inr:
  assumes "get_true_pred_recurrent unscale model ds = Inr (yt, yp)"
  shows "length yt = length ds \<and> length yp = length ds
       \<and> (\<forall>i<length ds. yt ! i = unscale (snd (ds ! i))
             \<and> (\<exists>s. rollout_state_at unscale model ds i = Inr s
                    \<and> yp ! i = unscale (prediction s)))"
proof -
  have ne: "ds \<noteq> []"
    using assms
    by (auto simp: get_true_pred_recurrent_def rollout_init_def dataset_getitem_def)
  with assms obtain s where s: "rollout_state_at unscale model ds (length ds - 1) = Inr s"
    and "yt = y_true s" and "yp = y_pred s"
    by (auto simp: get_true_pred_recurrent_state_at split: sum.splits)
  moreover have "Suc (length ds - 1) = length ds" using ne by simp
  moreover have "i \<le> length ds - 1" if "i < length ds" for i using that by simp
  ultimately show ?thesis
    using rollout_state_at_histories[OF s] by simp
qed

lemma rollout_result_sequence_wf:
  assumes "ds \<noteq> []" and "wf_source L W ds" and "0 < L" and "2 \<le> W"
    and "\<And>w. wf_window L W w \<Longrightarrow> length (model w) = W - 2"
  shows "get_true_pred_recurrent unscale model ds =
           Inr (map (\<lambda>i. unscale (snd (ds ! i))) [0..<length ds],
                map (\<lambda>i. unscale (spec_prediction model ds i)) [0..<length ds])"
proof -
  have "length ds - 1 < length ds" using assms(1) by simp
  with assms(2-5)
  have "rollout_state_at unscale model ds (length ds - 1) =
       Inr \<lparr>seq = spec_window model ds (length ds - 1),
            prediction = spec_prediction model ds (length ds - 1),
            y_true = map (\<lambda>k. unscale (snd (ds ! k))) [0..<Suc (length ds - 1)],
            y_pred = map (\<lambda>k. unscale (spec_prediction model ds k)) [0..<Suc (length ds - 1)]\<rparr>"
    by (rule rollout_state_at_spec)
  moreover have "Suc (length ds - 1) = length ds" using assms(1) by simp
  ultimately show ?thesis
    using assms(1) by (simp add: get_true_pred_recurrent_state_at)
qed

text \<open>
  C3. Whenever the rollout returns on a source of \<open>N\<close> windows, it returns two sequences
  of exactly \<open>N\<close> elements, and for each step \<open>i\<close> the true element is the unscaled target of
  step \<open>i\<close> and the predicted element is the unscaled prediction the model made at step \<open>i\<close>.
  And it does return when the data model's invariant holds: let the source have \<open>N \<ge> 1\<close>
  windows, each of \<open>L \<ge> 1\<close> rows and \<open>W \<ge> 2\<close> columns, and let the model answer windows
  of that shape with \<open>W - 2\<close> values; then the result is the sequence of the unscaled
  targets and of the unscaled predictions of the recurrence the specification describes.
\<close>

theorem rollout_result_sequence:
  "(\<forall>yt yp. get_true_pred_recurrent unscale model ds = Inr (yt, yp) \<longrightarrow>
       length yt = length ds \<and> length yp = length ds
       \<and> (\<forall>i<length ds. yt ! i = unscale (snd (ds ! i))
             \<and> (\<exists>s. rollout_state_at unscale model ds i = Inr s
                    \<and> yp ! i = unscale (prediction s))))
   \<and> (ds \<noteq> [] \<and> wf_source L W ds \<and> 0 < L \<and> 2 \<le> W
        \<and> (\<forall>w. wf_window L W w \<longrightarrow> length (model w) = W - 2) \<longrightarrow>
       get_true_pred_recurrent unscale model ds =
         Inr (map (\<lambda>i. unscale (snd (ds ! i))) [0..<length ds],
              map (\<lambda>i. unscale (spec_prediction model ds i)) [0..<length ds]))"
proof (rule conjI)
  show "\<forall>yt yp. get_true_pred_recurrent unscale model ds = Inr (yt, yp) \<longrightarrow>
       length yt = length ds \<and> length yp = length ds
       \<and> (\<forall>i<length ds. yt ! i = unscale (snd (ds ! i))
             \<and> (\<exists>s. rollout_state_at unscale model ds i = Inr s
                    \<and> yp ! i = unscale (prediction s)))"
  proof (rule allI, rule allI, rule impI)
    fix yt yp
    assume "get_true_pred_recurrent unscale model ds = Inr (yt, yp)"
    then show "length yt = length ds \<and> length yp = length ds
       \<and> (\<forall>i<length ds. yt ! i = unscale (snd (ds ! i))
             \<and> (\<exists>s. rollout_state_at unscale model ds i = Inr s
                    \<and> yp ! i = unscale (prediction s)))"
      by (rule get_true_pred_recurrent_Inr)
  qed
  show "ds \<noteq> [] \<and> wf_source L W ds \<and> 0 < L \<and> 2 \<le> W
        \<and> (\<forall>w. wf_window L W w \<longrightarrow> length (model w) = W - 2) \<longrightarrow>
       get_true_pred_recurrent unscale model ds =
         Inr (map (\<lambda>i. unscale (snd (ds ! i))) [0..<length ds],
              map (\<lambda>i. unscale (spec_prediction model ds i)) [0..<length ds])"
  proof (rule impI)
    assume a: "ds \<noteq> [] \<and> wf_source L W ds \<and> 0 < L \<and> 2 \<le> W
        \<and> (\<forall>w. wf_window L W w \<longrightarrow> length (model w) = W - 2)"
    then have m: "length (model w) = W - 2" if "wf_window L W w" for w
      using that by blast
    from a have "ds \<noteq> []" and "wf_source L W ds" and "0 < L" and "2 \<le> W"
      by simp_all
    then show "get_true_pred_recurrent unscale model ds =
         Inr (map (\<lambda>i. unscale (snd (ds ! i))) [0..<length ds],
              map (\<lambda>i. unscale (spec_prediction model ds i)) [0..<length ds])"
      using m by (rule rollout_result_sequence_wf)
  qed
qed

text \<open>The scenario: three steps, predictions \<open>[1, 1]\<close>, \<open>[2, 2]\<close>, \<open>[3, 3]\<close> before unscaling.\<close>

theorem rollout_result_sequence_witness:
  "ex_source \<noteq> [] \<and> wf_source 3 4 ex_source \<and> (0::nat) < 3 \<and> (2::nat) \<le> 4
   \<and> (\<forall>w. length (ex_model w) = 4 - 2)
   \<and> get_true_pred_recurrent ex_unscale ex_model ex_source =
       Inr (map (\<lambda>i. ex_unscale (snd (ex_source ! i))) [0..<length ex_source],
            map (\<lambda>i. ex_unscale (spec_prediction ex_model ex_source i)) [0..<length ex_source])
   \<and> get_true_pred_recurrent ex_unscale ex_model ex_source =
       Inr ([[1005, 1015], [1025, 1035], [1045, 1055]], [[15, 15], [25, 25], [35, 35]])
   \<and> length [[1005, 1015], [1025, 1035], [1045, 1055 :: int]] = length ex_source
   \<and> length [[15, 15], [25, 25], [35, 35 :: int]] = length ex_source"
proof -
  have n: "ex_source \<noteq> []" by (simp add: ex_source_def)
  have m: "length (ex_model w) = 4 - 2" for w by (simp add: ex_model_length)
  note t = rollout_result_sequence[of ex_unscale ex_model ex_source 3 4]
  have r: "get_true_pred_recurrent ex_unscale ex_model ex_source =
       Inr (map (\<lambda>i. ex_unscale (snd (ex_source ! i))) [0..<length ex_source],
            map (\<lambda>i. ex_unscale (spec_prediction ex_model ex_source i)) [0..<length ex_source])"
    using t n ex_source_wf m by simp
  have v: "get_true_pred_recurrent ex_unscale ex_model ex_source =
       Inr ([[1005, 1015], [1025, 1035], [1045, 1055]], [[15, 15], [25, 25], [35, 35]])"
    using ex_state_2 n
    by (simp add: get_true_pred_recurrent_state_at ex_source_def)
  from t v have l: "length [[1005, 1015], [1025, 1035], [1045, 1055 :: int]] = length ex_source
      \<and> length [[15, 15], [25, 25], [35, 35 :: int]] = length ex_source"
    by blast
  show ?thesis using n ex_source_wf m r v l by simp
qed

section \<open>Step 0\<close>

lemma rollout_step_cong:
  assumes "length ds = length ds'"
    and "i < length ds \<longrightarrow> snd (ds ! i) = snd (ds' ! i)
          \<and> last_row_last2 (fst (ds ! i)) = last_row_last2 (fst (ds' ! i))"
  shows "rollout_step unscale model ds s i = rollout_step unscale model ds' s i"
  using assms
  by (cases "ds ! i"; cases "ds' ! i")
     (auto simp: rollout_step_def dataset_getitem_def)

lemma rollout_loop_cong:
  assumes "length ds = length ds'"
    and "\<forall>i\<in>set is. i < length ds \<longrightarrow> snd (ds ! i) = snd (ds' ! i)
          \<and> last_row_last2 (fst (ds ! i)) = last_row_last2 (fst (ds' ! i))"
  shows "rollout_loop unscale model ds s is = rollout_loop unscale model ds' s is"
  using assms(2)
proof (induction "is" arbitrary: s)
  case Nil
  show ?case by simp
next
  case (Cons i "is")
  have "rollout_step unscale model ds s i = rollout_step unscale model ds' s i"
    using assms(1) Cons.prems by (intro rollout_step_cong) simp_all
  moreover have "rollout_loop unscale model ds t is = rollout_loop unscale model ds' t is" for t
    using Cons.prems by (intro Cons.IH) simp
  ultimately show ?case by (simp split: sum.splits)
qed

lemma rollout_loop_histories:
  "rollout_loop unscale model ds s is = Inr s' \<Longrightarrow>
     (\<exists>zs. y_true s' = y_true s @ zs) \<and> (\<exists>zs. y_pred s' = y_pred s @ zs)"
proof (induction "is" arbitrary: s)
  case Nil
  then show ?case by simp
next
  case (Cons i "is")
  from Cons.prems obtain t where t: "rollout_step unscale model ds s i = Inr t"
    and l: "rollout_loop unscale model ds t is = Inr s'"
    by (auto split: sum.splits)
  from t have "y_true t = y_true s @ [unscale (snd (ds ! i))]"
    and "\<exists>z. y_pred t = y_pred s @ [z]"
    by (simp_all add: rollout_step_Inr Let_def)
  with Cons.IH[OF l] show ?case by auto
qed

text \<open>
  C2. On a source whose first element is \<open>(w0, t0)\<close>, the state after the initialisation
  holds \<open>w0\<close> itself as the window, the model's answer to \<open>w0\<close> as the prediction, the
  unscaled \<open>t0\<close> as the only true value and the unscaled answer as the only predicted
  value; when the rollout returns, these are the first elements of its two sequences. No
  later step reads prediction columns from the source: two sources with the same first
  element, the same targets and the same last two entries in the final row of each later
  window give the same rollout, whatever else their later windows hold.
\<close>

theorem rollout_step0:
  "rollout_state_at unscale model ((w0, t0) # rest) 0 =
      Inr \<lparr>seq = w0, prediction = model w0,
           y_true = [unscale t0], y_pred = [unscale (model w0)]\<rparr>
   \<and> (\<forall>yt yp. get_true_pred_recurrent unscale model ((w0, t0) # rest) = Inr (yt, yp) \<longrightarrow>
         yt \<noteq> [] \<and> yp \<noteq> [] \<and> hd yt = unscale t0 \<and> hd yp = unscale (model w0))
   \<and> (\<forall>rest'. list_all2 (\<lambda>p p'. snd p = snd p'
                   \<and> last_row_last2 (fst p) = last_row_last2 (fst p')) rest rest' \<longrightarrow>
         get_true_pred_recurrent unscale model ((w0, t0) # rest') =
         get_true_pred_recurrent unscale model ((w0, t0) # rest))"
proof (intro conjI allI impI)
  show s0: "rollout_state_at unscale model ((w0, t0) # rest) 0 =
      Inr \<lparr>seq = w0, prediction = model w0,
           y_true = [unscale t0], y_pred = [unscale (model w0)]\<rparr>"
    by (simp add: rollout_state_at_0 rollout_init_def dataset_getitem_def Let_def)
  fix yt yp
  assume r: "get_true_pred_recurrent unscale model ((w0, t0) # rest) = Inr (yt, yp)"
  let ?s0 = "\<lparr>seq = w0, prediction = model w0,
           y_true = [unscale t0], y_pred = [unscale (model w0)]\<rparr>"
  from r obtain s where "rollout_loop unscale model ((w0, t0) # rest) ?s0 [1..<length ((w0, t0) # rest)] = Inr s"
    and "yt = y_true s" and "yp = y_pred s"
    by (auto simp: get_true_pred_recurrent_def rollout_init_def dataset_getitem_def Let_def
        split: sum.splits)
  with rollout_loop_histories[of unscale model "(w0, t0) # rest" ?s0 _ s]
  have "(\<exists>zs. yt = unscale t0 # zs) \<and> (\<exists>zs. yp = unscale (model w0) # zs)"
    by simp
  then show "yt \<noteq> []" "yp \<noteq> []" "hd yt = unscale t0" "hd yp = unscale (model w0)"
    by auto
next
  fix rest'
  assume a: "list_all2 (\<lambda>p p'. snd p = snd p'
                   \<and> last_row_last2 (fst p) = last_row_last2 (fst p')) rest rest'"
  let ?ds = "(w0, t0) # rest" and ?ds' = "(w0, t0) # rest'"
  have len: "length ?ds' = length ?ds" using a by (simp add: list_all2_lengthD)
  have "rollout_loop unscale model ?ds' s [1..<length ?ds'] =
        rollout_loop unscale model ?ds s [1..<length ?ds']" for s
  proof (rule rollout_loop_cong[OF len], intro ballI impI)
    fix i assume "i \<in> set [1..<length ?ds']" and "i < length ?ds'"
    then have "1 \<le> i" and "i < Suc (length rest')"
      by (simp_all only: set_upt atLeastLessThan_iff list.size) simp_all
    then obtain j where j: "i = Suc j" "j < length rest'"
      by (cases i) simp_all
    with a have "snd (rest ! j) = snd (rest' ! j)
        \<and> last_row_last2 (fst (rest ! j)) = last_row_last2 (fst (rest' ! j))"
      by (simp add: list_all2_conv_all_nth)
    with j show "snd (?ds' ! i) = snd (?ds ! i)
          \<and> last_row_last2 (fst (?ds' ! i)) = last_row_last2 (fst (?ds ! i))"
      by simp
  qed
  then have loop: "rollout_loop unscale model ?ds' s [1..<length ?ds'] =
        rollout_loop unscale model ?ds s [1..<length ?ds]" for s
    by (simp only: len)
  have init: "rollout_init unscale model ?ds' = rollout_init unscale model ?ds"
    by (simp add: rollout_init_def dataset_getitem_def)
  show "get_true_pred_recurrent unscale model ?ds' = get_true_pred_recurrent unscale model ?ds"
    unfolding get_true_pred_recurrent_def init loop ..
qed

text \<open>
  The scenario and the source with a wider second window have the same first window, the
  same targets and the same exogenous columns in the final row of the second window
  (\<open>[56, 57]\<close>); the prediction columns of that row differ (\<open>[9, 9]\<close> and \<open>[6, 6]\<close>).
\<close>

theorem rollout_step0_witness:
  "get_true_pred_recurrent ex_unscale ex_model (take 2 ex_source) =
     Inr ([[1005, 1015], [1025, 1035]], [[15, 15], [25, 25]])
   \<and> hd [[1005, 1015], [1025, 1035]] = ex_unscale (snd (hd ex_source))
   \<and> hd [[15, 15], [25, 25]] = ex_unscale (ex_model (fst (hd ex_source)))
   \<and> list_all2 (\<lambda>p p'. snd p = snd p' \<and> last_row_last2 (fst p) = last_row_last2 (fst p'))
        (tl (take 2 ex_source)) (tl ex_source_wide)
   \<and> fst (hd (tl (take 2 ex_source))) \<noteq> fst (hd (tl ex_source_wide))
   \<and> get_true_pred_recurrent ex_unscale ex_model ex_source_wide =
     get_true_pred_recurrent ex_unscale ex_model (take 2 ex_source)"
proof -
  let ?w0 = "\<lparr>ncols = 4, rows = [[7, 7, 50, 51], [8, 8, 52, 53], [0, 0, 54, 55 :: int]]\<rparr>"
  let ?w1 = "\<lparr>ncols = 4, rows = [[8, 8, 52, 53], [0, 0, 54, 55], [9, 9, 56, 57 :: int]]\<rparr>"
  let ?v1 = "\<lparr>ncols = 5, rows = [[1, 8, 8, 52, 53], [1, 0, 0, 54, 55], [1, 6, 6, 56, 57 :: int]]\<rparr>"
  have a: "take 2 ex_source = (?w0, [100, 101]) # [(?w1, [102, 103])]"
    by (simp add: ex_source_def)
  have b: "ex_source_wide = (?w0, [100, 101]) # [(?v1, [102, 103])]"
    by (simp add: ex_source_wide_def)
  have r: "get_true_pred_recurrent ex_unscale ex_model ((?w0, [100, 101]) # [(?w1, [102, 103])]) =
     Inr ([[1005, 1015], [1025, 1035]], [[15, 15], [25, 25]])"
    by (simp add: rollout_eval ex_model_def ex_unscale_def)
  have l: "list_all2 (\<lambda>p p'. snd p = snd p' \<and> last_row_last2 (fst p) = last_row_last2 (fst p'))
        [(?w1, [102, 103])] [(?v1, [102, 103])]"
    by (simp add: last_row_last2_def)
  note t = rollout_step0[of ex_unscale ex_model ?w0 "[100, 101]" "[(?w1, [102, 103])]"]
  from t r have h: "hd [[1005, 1015], [1025, 1035]] = ex_unscale [100, 101]
      \<and> hd [[15, 15], [25, 25]] = ex_unscale (ex_model ?w0)"
    by blast
  from t l have e: "get_true_pred_recurrent ex_unscale ex_model ((?w0, [100, 101]) # [(?v1, [102, 103])]) =
         get_true_pred_recurrent ex_unscale ex_model ((?w0, [100, 101]) # [(?w1, [102, 103])])"
    by blast
  show ?thesis
    unfolding a b using r h e l by (simp add: ex_source_def)
qed

section \<open>Mismatched shapes\<close>

lemma rollout_state_at_width:
  assumes ne: "\<forall>p\<in>set ds. rows (fst p) \<noteq> [] \<and> 2 \<le> length (last (rows (fst p)))"
    and m: "\<And>w. length (model w) = B"
    and w: "B + 2 = ncols (fst (ds ! 0))"
  shows "i < length ds \<Longrightarrow>
     \<exists>s. rollout_state_at unscale model ds i = Inr s \<and> ncols (seq s) = B + 2"
proof (induction i)
  case 0
  then have "ds \<noteq> []" by auto
  then show ?case using w by (simp add: rollout_state_at_0 rollout_init_Cons)
next
  case (Suc i)
  then obtain s where s: "rollout_state_at unscale model ds i = Inr s"
    and ws: "ncols (seq s) = B + 2"
    by auto
  have p: "length (prediction s) = B"
    using rollout_state_at_prediction[OF s] m by simp
  have "ds ! Suc i \<in> set ds" using Suc.prems by simp
  with ne have r: "rows (fst (ds ! Suc i)) \<noteq> []"
    and "2 \<le> length (last (rows (fst (ds ! Suc i))))"
    by blast+
  then have e: "length (exogenous (fst (ds ! Suc i))) = 2" by (rule exogenous_length)
  show ?case
    unfolding rollout_state_at_Suc s
    using Suc.prems r e ws p
    by (simp add: rollout_step_Inr Let_def)
qed

text \<open>
  C5, as the code has it. The rollout compares no width itself; the only check is that of
  \<^verbatim>\<open>torch.cat\<close> when the new row is appended. Let the source be non-empty, each of its
  windows have at least one row whose last row has at least two entries, and the model always
  answer \<open>B\<close> values. Then the rollout fails with the RuntimeError of \<^verbatim>\<open>torch.cat\<close> exactly
  when the source has at least two steps and \<open>B + 2\<close> differs from the width of the first
  window; in every other case it returns a result. The widths of the later windows play no
  part, and with a single step the width of the model's answer is never looked at.
\<close>

theorem rollout_shape_mismatch:
  assumes "ds \<noteq> []"
    and "\<forall>p\<in>set ds. rows (fst p) \<noteq> [] \<and> 2 \<le> length (last (rows (fst p)))"
    and "\<And>w. length (model w) = B"
  shows "(get_true_pred_recurrent unscale model ds = Inl RuntimeError
           \<longleftrightarrow> 2 \<le> length ds \<and> B + 2 \<noteq> ncols (fst (ds ! 0)))
       \<and> (length ds < 2 \<or> B + 2 = ncols (fst (ds ! 0))
           \<longrightarrow> (\<exists>r. get_true_pred_recurrent unscale model ds = Inr r))"
proof -
  let ?s0 = "\<lparr>seq = fst (ds ! 0), prediction = model (fst (ds ! 0)),
          y_true = [unscale (snd (ds ! 0))], y_pred = [unscale (model (fst (ds ! 0)))]\<rparr>"
  have ok: "\<exists>r. get_true_pred_recurrent unscale model ds = Inr r"
    if "length ds < 2 \<or> B + 2 = ncols (fst (ds ! 0))"
  proof (cases "B + 2 = ncols (fst (ds ! 0))")
    case True
    have "length ds - 1 < length ds" using assms(1) by simp
    with assms(2,3) True
    have "\<exists>s. rollout_state_at unscale model ds (length ds - 1) = Inr s \<and> ncols (seq s) = B + 2"
      by (rule rollout_state_at_width)
    then obtain s where "rollout_state_at unscale model ds (length ds - 1) = Inr s" by blast
    then show ?thesis using assms(1) by (simp add: get_true_pred_recurrent_state_at)
  next
    case False
    with that assms(1) have "length ds = 1" by (cases ds) auto
    then show ?thesis
      using assms(1) by (simp add: get_true_pred_recurrent_def rollout_init_Cons)
  qed
  have bad: "get_true_pred_recurrent unscale model ds = Inl RuntimeError"
    if n: "2 \<le> length ds" and w: "B + 2 \<noteq> ncols (fst (ds ! 0))"
  proof -
    have "ds ! 1 \<in> set ds" using n by simp
    with assms(2) have r: "rows (fst (ds ! 1)) \<noteq> []"
      and "2 \<le> length (last (rows (fst (ds ! 1))))"
      by blast+
    then have e: "length (exogenous (fst (ds ! 1))) = 2" by (rule exogenous_length)
    have "rollout_step unscale model ds ?s0 1 = Inl RuntimeError"
      using n r e w assms(3) by (intro rollout_step_RuntimeError) simp_all
    moreover have "[1..<length ds] = 1 # [Suc 1..<length ds]"
      using n by (simp add: upt_conv_Cons)
    ultimately show ?thesis
      using assms(1) by (simp add: get_true_pred_recurrent_def rollout_init_Cons)
  qed
  have "get_true_pred_recurrent unscale model ds = Inl RuntimeError
           \<longleftrightarrow> 2 \<le> length ds \<and> B + 2 \<noteq> ncols (fst (ds ! 0))"
  proof
    assume "get_true_pred_recurrent unscale model ds = Inl RuntimeError"
    then have "\<not> (length ds < 2 \<or> B + 2 = ncols (fst (ds ! 0)))"
      using ok by fastforce
    then show "2 \<le> length ds \<and> B + 2 \<noteq> ncols (fst (ds ! 0))" by simp
  next
    assume "2 \<le> length ds \<and> B + 2 \<noteq> ncols (fst (ds ! 0))"
    then show "get_true_pred_recurrent unscale model ds = Inl RuntimeError"
      using bad by blast
  qed
  with ok show ?thesis by blast
qed


text \<open>The scenario with a model that answers three values where \<open>W - 2 = 2\<close>.\<close>

theorem rollout_shape_mismatch_witness:
  "ex_source \<noteq> []
   \<and> list_all (\<lambda>p. rows (fst p) \<noteq> [] \<and> 2 \<le> length (last (rows (fst p)))) ex_source
   \<and> (\<forall>w. length (ex_model_three w) = 3)
   \<and> 2 \<le> length ex_source \<and> 3 + 2 \<noteq> ncols (fst (ex_source ! 0))
   \<and> get_true_pred_recurrent ex_unscale ex_model_three ex_source = Inl RuntimeError"
proof -
  have n: "ex_source \<noteq> []" by (simp add: ex_source_def)
  have r: "\<forall>p\<in>set ex_source. rows (fst p) \<noteq> [] \<and> 2 \<le> length (last (rows (fst p)))"
    by (simp add: ex_source_def)
  have m: "length (ex_model_three w) = 3" for w by (simp add: ex_model_three_def)
  have c: "2 \<le> length ex_source \<and> 3 + 2 \<noteq> ncols (fst (ex_source ! 0))"
    by (simp add: ex_source_def)
  show ?thesis
    using rollout_shape_mismatch[of ex_source ex_model_three 3 ex_unscale, OF n r m] n r c m
    by (simp add: list_all_iff)
qed

text \<open>
  The specification's sentence fails in two ways: a source whose second window has five
  columns where the first has four is rolled out to the end, and so is a one-step source with
  a model that answers three values where \<open>W - 2 = 2\<close>.
\<close>

theorem rollout_shape_mismatch_counterexample:
  "ncols (fst (ex_source_wide ! 1)) \<noteq> ncols (fst (ex_source_wide ! 0))
   \<and> get_true_pred_recurrent ex_unscale ex_model ex_source_wide =
       Inr ([[1005, 1015], [1025, 1035]], [[15, 15], [25, 25]])
   \<and> length (ex_model_three (fst (ex_source ! 0))) \<noteq> ncols (fst (ex_source ! 0)) - 2
   \<and> get_true_pred_recurrent ex_unscale ex_model_three (take 1 ex_source) =
       Inr ([[1005, 1015]], [[15, 15, 15]])"
  by (simp add: rollout_eval ex_source_def ex_source_wide_def ex_model_def ex_model_three_def
      ex_unscale_def)

section \<open>The block extractor\<close>

lemma block_loop_Inr:
  assumes "\<forall>i\<in>set is. i < length yt \<and> i < length yp
             \<and> tensor_item (yt ! i) (b - 1) = Inr (yt ! i ! j)
             \<and> tensor_item (yp ! i) (b - 1) = Inr (yp ! i ! j)"
  shows "block_loop yt yp b is (bt, bp) =
           Inr (bt @ map (\<lambda>i. yt ! i ! j) is, bp @ map (\<lambda>i. yp ! i ! j) is)"
  using assms
  by (induction "is" arbitrary: bt bp) (simp_all add: list_getitem_def)

lemma block_loop_error:
  assumes "i < length yt" and "tensor_item (yt ! i) (b - 1) = Inl e"
  shows "block_loop yt yp b (i # is) acc = Inl e"
  using assms by (cases acc) (simp add: list_getitem_def)

lemma extract_block_Inr:
  assumes "length yp = length yt"
    and "\<forall>v\<in>set yt \<union> set yp. tensor_item v (b - 1) = Inr (v ! j)"
  shows "extract_block yt yp b = Inr (map (\<lambda>v. v ! j) yt, map (\<lambda>v. v ! j) yp)"
proof -
  have "\<forall>i\<in>set [0..<length yt]. i < length yt \<and> i < length yp
             \<and> tensor_item (yt ! i) (b - 1) = Inr (yt ! i ! j)
             \<and> tensor_item (yp ! i) (b - 1) = Inr (yp ! i ! j)"
    using assms by simp
  then have "extract_block yt yp b =
      Inr ([] @ map (\<lambda>i. yt ! i ! j) [0..<length yt], [] @ map (\<lambda>i. yp ! i ! j) [0..<length yt])"
    unfolding extract_block_def by (rule block_loop_Inr)
  moreover have "map (\<lambda>i. yt ! i ! j) [0..<length yt] = map (\<lambda>v. v ! j) yt"
    by (simp add: map_equality_iff)
  moreover have "map (\<lambda>i. yp ! i ! j) [0..<length yt] = map (\<lambda>v. v ! j) yp"
    using assms(1) by (simp add: map_equality_iff)
  ultimately show ?thesis by simp
qed

lemma extract_block_error:
  assumes "yt \<noteq> []" and "tensor_item (yt ! 0) (b - 1) = Inl e"
  shows "extract_block yt yp b = Inl e"
proof -
  have "[0..<length yt] = 0 # [1..<length yt]"
    using assms(1) by (simp add: upt_conv_Cons)
  moreover have "0 < length yt" using assms(1) by simp
  then have "block_loop yt yp b (0 # [1..<length yt]) ([], []) = Inl e"
    using assms(2) by (rule block_loop_error)
  ultimately show ?thesis
    unfolding extract_block_def by (simp only:)
qed

text \<open>
  C7, as the code has it. Take a result sequence of \<open>N\<close> steps whose vectors all have \<open>B\<close>
  entries (a tensor size, so below \<open>2 ^ 63\<close>), and a block number \<open>b\<close>. For \<open>1 \<le> b \<le> B\<close> the
  extractor returns the two series of length \<open>N\<close> whose entry \<open>i\<close> is entry \<open>b - 1\<close> of the
  true and of the predicted vector of step \<open>i\<close>. For \<open>-B < b \<le> 0\<close> the index \<open>b - 1\<close> is
  negative and counts from the end: the extractor returns the series of entry \<open>B + b - 1\<close>.
  On a sequence that is not empty it fails otherwise: with an IndexError for
  \<open>B < b \<le> 2 ^ 63\<close> and for \<open>- (2 ^ 63) < b \<le> -B\<close>, where the index \<open>b - 1\<close> fits 64 bits, and
  with a ValueError for \<open>b > 2 ^ 63\<close> and for \<open>b \<le> - (2 ^ 63)\<close>, where it does not.
\<close>

theorem extract_block_contract:
  assumes "length yp = length yt" and "\<forall>v\<in>set yt \<union> set yp. length v = B"
    and "int B < 2 ^ 63"
  shows "(1 \<le> b \<and> b \<le> int B \<longrightarrow>
            extract_block yt yp b =
              Inr (map (\<lambda>v. v ! nat (b - 1)) yt, map (\<lambda>v. v ! nat (b - 1)) yp))
       \<and> (- int B < b \<and> b \<le> 0 \<longrightarrow>
            extract_block yt yp b =
              Inr (map (\<lambda>v. v ! nat (int B + b - 1)) yt, map (\<lambda>v. v ! nat (int B + b - 1)) yp))
       \<and> ((int B < b \<and> b \<le> 2 ^ 63 \<or> - (2 ^ 63) < b \<and> b \<le> - int B) \<and> yt \<noteq> [] \<longrightarrow>
            extract_block yt yp b = Inl IndexError)
       \<and> ((2 ^ 63 < b \<or> b \<le> - (2 ^ 63)) \<and> yt \<noteq> [] \<longrightarrow>
            extract_block yt yp b = Inl ValueError)"
proof (intro conjI impI)
  assume "1 \<le> b \<and> b \<le> int B"
  with assms(2,3)
  have "\<forall>v\<in>set yt \<union> set yp. tensor_item v (b - 1) = Inr (v ! nat (b - 1))"
    by (auto simp: tensor_item_def int64_min_def int64_max_def)
  with assms(1) show "extract_block yt yp b =
      Inr (map (\<lambda>v. v ! nat (b - 1)) yt, map (\<lambda>v. v ! nat (b - 1)) yp)"
    by (rule extract_block_Inr)
next
  assume "- int B < b \<and> b \<le> 0"
  with assms(2,3)
  have "\<forall>v\<in>set yt \<union> set yp. tensor_item v (b - 1) = Inr (v ! nat (int B + b - 1))"
    by (auto simp: tensor_item_def int64_min_def int64_max_def algebra_simps)
  with assms(1) show "extract_block yt yp b =
      Inr (map (\<lambda>v. v ! nat (int B + b - 1)) yt, map (\<lambda>v. v ! nat (int B + b - 1)) yp)"
    by (rule extract_block_Inr)
next
  assume a: "(int B < b \<and> b \<le> 2 ^ 63 \<or> - (2 ^ 63) < b \<and> b \<le> - int B) \<and> yt \<noteq> []"
  then have "yt ! 0 \<in> set yt" by simp
  with assms(2) have "length (yt ! 0) = B" by blast
  with a have "tensor_item (yt ! 0) (b - 1) = Inl IndexError"
    by (auto simp: tensor_item_def int64_min_def int64_max_def)
  with a show "extract_block yt yp b = Inl IndexError"
    by (simp add: extract_block_error)
next
  assume a: "(2 ^ 63 < b \<or> b \<le> - (2 ^ 63)) \<and> yt \<noteq> []"
  then have "tensor_item (yt ! 0) (b - 1) = Inl ValueError"
    by (auto simp: tensor_item_def int64_min_def int64_max_def)
  with a show "extract_block yt yp b = Inl ValueError"
    by (simp add: extract_block_error)
qed

text \<open>
  C10. With at least one block, block number 0 does not fail: the index \<open>-1\<close> selects the
  final entry of each vector, and the extractor returns the series of the last block, the
  one at index \<open>B - 1\<close>.
\<close>

theorem extract_block_zero:
  assumes "length yp = length yt" and "\<forall>v\<in>set yt \<union> set yp. length v = B" and "1 \<le> B"
  shows "extract_block yt yp 0 = Inr (map (\<lambda>v. v ! (B - 1)) yt, map (\<lambda>v. v ! (B - 1)) yp)
       \<and> extract_block yt yp 0 = Inr (map last yt, map last yp)"
proof -
  have "\<forall>v\<in>set yt \<union> set yp. tensor_item v (0 - 1) = Inr (v ! (B - 1))"
    using assms(2,3)
    by (auto simp: tensor_item_def int64_min_def int64_max_def nat_diff_distrib')
  with assms(1)
  have e: "extract_block yt yp 0 = Inr (map (\<lambda>v. v ! (B - 1)) yt, map (\<lambda>v. v ! (B - 1)) yp)"
    by (rule extract_block_Inr)
  have "v ! (B - 1) = last v" if "v \<in> set yt \<union> set yp" for v
  proof -
    from that assms(2) have "length v = B" by blast
    with assms(3) have "v \<noteq> []" by auto
    then have "last v = v ! (length v - 1)" by (rule last_conv_nth)
    with \<open>length v = B\<close> show ?thesis by simp
  qed
  then have "map (\<lambda>v. v ! (B - 1)) yt = map last yt" and "map (\<lambda>v. v ! (B - 1)) yp = map last yp"
    by simp_all
  with e show ?thesis by simp
qed

lemmas block_eval =
  extract_block_def list_getitem_def tensor_item_def int64_min_def int64_max_def upt_conv_Cons

lemma ex_result_shape:
  "length ex_pred = length ex_true" "\<forall>v\<in>set ex_true \<union> set ex_pred. length v = 2"
  by (simp_all add: ex_true_def ex_pred_def)

text \<open>
  On the example sequence: block 2, block number \<open>-1\<close>, block number 3, and the block
  number \<open>2 ^ 63 + 1\<close>, whose index \<open>2 ^ 63\<close> does not fit 64 bits.
\<close>

theorem extract_block_contract_witness:
  "length ex_pred = length ex_true \<and> list_all (\<lambda>v. length v = 2) (ex_true @ ex_pred)
   \<and> int 2 < 2 ^ 63
   \<and> (1::int) \<le> 2 \<and> (2::int) \<le> int 2
   \<and> extract_block ex_true ex_pred 2 = Inr ([1015, 1035, 1055], [16, 26, 36])
   \<and> - int 2 < - 1 \<and> (- 1::int) \<le> 0
   \<and> extract_block ex_true ex_pred (- 1) = Inr ([1005, 1025, 1045], [15, 25, 35])
   \<and> int 2 < 3 \<and> (3::int) \<le> 2 ^ 63 \<and> ex_true \<noteq> []
   \<and> extract_block ex_true ex_pred 3 = Inl IndexError
   \<and> (2::int) ^ 63 < 2 ^ 63 + 1
   \<and> extract_block ex_true ex_pred (2 ^ 63 + 1) = Inl ValueError"
proof -
  have s: "int 2 < 2 ^ 63" by simp
  note c = extract_block_contract[OF ex_result_shape s]
  have a: "extract_block ex_true ex_pred 2 =
      Inr (map (\<lambda>v. v ! nat (2 - 1)) ex_true, map (\<lambda>v. v ! nat (2 - 1)) ex_pred)"
    using c[of 2] by simp
  have b: "extract_block ex_true ex_pred (- 1) =
      Inr (map (\<lambda>v. v ! nat (int 2 + (- 1) - 1)) ex_true,
           map (\<lambda>v. v ! nat (int 2 + (- 1) - 1)) ex_pred)"
    using c[of "- 1"] by simp
  have n: "ex_true \<noteq> []" by (simp add: ex_true_def)
  have d: "extract_block ex_true ex_pred 3 = Inl IndexError"
    using c[of 3] n by simp
  have e: "extract_block ex_true ex_pred (2 ^ 63 + 1) = Inl ValueError"
    using c[of "2 ^ 63 + 1"] n by simp
  have a': "map (\<lambda>v. v ! nat (2 - 1)) ex_true = [1015, 1035, 1055]"
       "map (\<lambda>v. v ! nat (2 - 1)) ex_pred = [16, 26, 36]"
       "map (\<lambda>v. v ! nat (int 2 + (- 1) - 1)) ex_true = [1005, 1025, 1045]"
       "map (\<lambda>v. v ! nat (int 2 + (- 1) - 1)) ex_pred = [15, 25, 35]"
    by (simp_all add: ex_true_def ex_pred_def)
  show ?thesis
    using a b d e n ex_result_shape unfolding a' by (simp add: list_all_iff ball_Un)
qed

text \<open>
  A block number below 1 for which the extractor does not fail: \<open>-1\<close> gives the series of
  the first of two blocks.
\<close>

theorem extract_block_contract_counterexample:
  "(- 1::int) < 1
   \<and> extract_block ex_true ex_pred (- 1) = Inr ([1005, 1025, 1045], [15, 25, 35])
   \<and> extract_block ex_true ex_pred (- 1) \<noteq> Inl IndexError"
  by (simp add: block_eval ex_true_def ex_pred_def)

text \<open>On the example sequence, block number 0 gives what block number 2 gives.\<close>

theorem extract_block_zero_witness:
  "length ex_pred = length ex_true \<and> list_all (\<lambda>v. length v = 2) (ex_true @ ex_pred)
   \<and> (1::nat) \<le> 2
   \<and> extract_block ex_true ex_pred 0 = Inr ([1015, 1035, 1055], [16, 26, 36])
   \<and> extract_block ex_true ex_pred 0 = extract_block ex_true ex_pred 2"
proof -
  have "(1::nat) \<le> 2" by simp
  with ex_result_shape
  have "extract_block ex_true ex_pred 0 =
          Inr (map (\<lambda>v. v ! (2 - 1)) ex_true, map (\<lambda>v. v ! (2 - 1)) ex_pred)
      \<and> extract_block ex_true ex_pred 0 = Inr (map last ex_true, map last ex_pred)"
    by (rule extract_block_zero)
  then have z: "extract_block ex_true ex_pred 0 = Inr (map last ex_true, map last ex_pred)" ..
  have l: "map last ex_true = [1015, 1035, 1055]" "map last ex_pred = [16, 26, 36]"
    by (simp_all add: ex_true_def ex_pred_def)
  have t: "extract_block ex_true ex_pred 2 = Inr ([1015, 1035, 1055], [16, 26, 36])"
    by (simp add: block_eval ex_true_def ex_pred_def)
  show ?thesis
    using z t ex_result_shape unfolding l by (simp add: list_all_iff ball_Un)
qed

section \<open>Facts about the training loop\<close>

lemma test_loss_loop_sum:
  "test_loss_loop env w acc bs =
     acc + (\<Sum>b\<leftarrow>bs. eval_batch env w b * real (batch_size env b))"
  by (induction bs arbitrary: acc) simp_all

lemma calculate_test_loss_sum:
  "calculate_test_loss env w (val_loader env) =
     (weighted_val_sum env (model_eval env w), model_eval env w)"
  by (simp add: calculate_test_loss_def weighted_val_sum_def test_loss_loop_sum Let_def)

lemma scheduler_args_append:
  "scheduler_args (xs @ ys) = scheduler_args xs @ scheduler_args ys"
  by (induction xs rule: scheduler_args.induct) simp_all

lemma trial_reports_append:
  "trial_reports (xs @ ys) = trial_reports xs @ trial_reports ys"
  by (induction xs rule: trial_reports.induct) simp_all

text \<open>What the first part of an epoch leaves when it gets through.\<close>

lemma epoch_until_report_Inr:
  assumes "epoch_until_report env epoch s = Inr (s4, train_loss, val_loss)"
  shows "n_train env \<noteq> 0" and "n_val env \<noteq> 0"
    and "val_loss = weighted_val_sum env (validation_world env s) / real (n_val env)"
    and "train_losses s4 = train_losses s @ [train_loss]"
    and "val_losses s4 = val_losses s @ [val_loss]"
    and "events s4 = events s
           @ (case scheduler env of None \<Rightarrow> []
              | Some step \<Rightarrow> [SchedulerStep (weighted_val_sum env (validation_world env s))])
           @ (case trial env of None \<Rightarrow> [] | Some t \<Rightarrow> [TrialReport val_loss epoch])"
  using assms
  by (auto simp: epoch_until_report_def calculate_test_loss_sum validation_world_def Let_def
      split: prod.splits if_splits option.splits)


lemma epoch_until_report_total:
  assumes "n_train env \<noteq> 0" and "n_val env \<noteq> 0"
  shows "\<exists>s4 train_loss val_loss. epoch_until_report env epoch s = Inr (s4, train_loss, val_loss)"
  using assms
  by (simp add: epoch_until_report_def Let_def split: prod.splits option.splits)

lemma epoch_until_report_Inl:
  assumes "epoch_until_report env epoch s = Inl (e, s')" and "n_val env \<noteq> 0"
  shows "train_losses s' = train_losses s" and "val_losses s' = val_losses s"
    and "events s' = events s"
  using assms
  by (auto simp: epoch_until_report_def Let_def split: prod.splits if_splits option.splits)

text \<open>The rest of the body adds no loss, no scheduler step and no report.\<close>

lemma prune_check_state:
  "train_losses (result_state (prune_check env s)) = train_losses s"
  "val_losses (result_state (prune_check env s)) = val_losses s"
  "events (result_state (prune_check env s)) = events s"
  by (simp_all add: prune_check_def result_state_def split: option.splits prod.splits)

lemma periodic_report_state:
  "train_losses (result_state (periodic_report env epoch a b s)) = train_losses s"
  "val_losses (result_state (periodic_report env epoch a b s)) = val_losses s"
  "scheduler_args (events (result_state (periodic_report env epoch a b s))) =
     scheduler_args (events s)"
  "trial_reports (events (result_state (periodic_report env epoch a b s))) =
     trial_reports (events s)"
  by (simp_all add: periodic_report_def result_state_def scheduler_args_append
      trial_reports_append)

lemma train_epoch_after_report:
  assumes "epoch_until_report env epoch s = Inr (s4, train_loss, val_loss)"
  shows "train_losses (result_state (train_epoch env epoch s)) = train_losses s4"
    and "val_losses (result_state (train_epoch env epoch s)) = val_losses s4"
    and "scheduler_args (events (result_state (train_epoch env epoch s))) =
           scheduler_args (events s4)"
    and "trial_reports (events (result_state (train_epoch env epoch s))) =
           trial_reports (events s4)"
proof -
  consider (stop) x where "prune_check env s4 = Inl x"
    | (go) s5 where "prune_check env s4 = Inr s5"
    by (cases "prune_check env s4") auto
  then have "train_losses (result_state (train_epoch env epoch s)) = train_losses s4
      \<and> val_losses (result_state (train_epoch env epoch s)) = val_losses s4
      \<and> scheduler_args (events (result_state (train_epoch env epoch s))) =
           scheduler_args (events s4)
      \<and> trial_reports (events (result_state (train_epoch env epoch s))) =
           trial_reports (events s4)"
  proof cases
    case stop
    then have "result_state (train_epoch env epoch s) = result_state (prune_check env s4)"
      using assms by (simp add: train_epoch_def)
    then show ?thesis by (simp add: prune_check_state)
  next
    case go
    then have "result_state (train_epoch env epoch s) =
        result_state (periodic_report env epoch train_loss val_loss s5)"
      using assms by (simp add: train_epoch_def)
    moreover have "s5 = result_state (prune_check env s4)"
      using go by (simp add: result_state_def)
    ultimately show ?thesis by (simp add: periodic_report_state prune_check_state)
  qed
  then show "train_losses (result_state (train_epoch env epoch s)) = train_losses s4"
    and "val_losses (result_state (train_epoch env epoch s)) = val_losses s4"
    and "scheduler_args (events (result_state (train_epoch env epoch s))) =
           scheduler_args (events s4)"
    and "trial_reports (events (result_state (train_epoch env epoch s))) =
           trial_reports (events s4)"
    by simp_all
qed

text \<open>
  What the calls of an epoch do to the collaborators: the scheduler is stepped with the
  undivided sum, the trial is given the quotient and the epoch number, and then asked.
\<close>

lemma epoch_until_report_world:
  assumes "epoch_until_report env epoch s = Inr (s4, train_loss, val_loss)"
  shows "world s4 =
           (case trial env of
              None \<Rightarrow> scheduled_world env s
            | Some t \<Rightarrow>
                report t (scheduled_world env s)
                  (weighted_val_sum env (validation_world env s) / real (n_val env)) epoch)"
  using assms
  by (auto simp: epoch_until_report_def calculate_test_loss_sum validation_world_def
      scheduled_world_def Let_def split: prod.splits if_splits option.splits)

lemma prune_check_world:
  "world (result_state (prune_check env s)) =
     (case trial env of None \<Rightarrow> world s | Some t \<Rightarrow> snd (should_prune t (world s)))"
  by (simp add: prune_check_def result_state_def split: option.splits prod.splits)

lemma periodic_report_world:
  "world (result_state (periodic_report env epoch a b s)) = world s"
  by (simp add: periodic_report_def result_state_def)

lemma train_epoch_world:
  assumes "epoch_until_report env epoch s = Inr (s4, train_loss, val_loss)"
  shows "world (result_state (train_epoch env epoch s)) =
           (case trial env of None \<Rightarrow> world s4 | Some t \<Rightarrow> snd (should_prune t (world s4)))"
proof (cases "prune_check env s4")
  case (Inl x)
  then have "result_state (train_epoch env epoch s) = result_state (prune_check env s4)"
    using assms by (simp add: train_epoch_def)
  then show ?thesis by (simp add: prune_check_world)
next
  case (Inr s5)
  then have "result_state (train_epoch env epoch s) =
      result_state (periodic_report env epoch train_loss val_loss s5)"
    using assms by (simp add: train_epoch_def)
  moreover have "s5 = result_state (prune_check env s4)"
    using Inr by (simp add: result_state_def)
  ultimately show ?thesis by (simp add: periodic_report_world prune_check_world)
qed

lemma train_epoch_calls:
  assumes "n_val env \<noteq> 0" and "n_train env \<noteq> 0"
  shows "world (result_state (train_epoch env epoch s)) =
           (case trial env of
              None \<Rightarrow> scheduled_world env s
            | Some t \<Rightarrow>
                snd (should_prune t
                  (report t (scheduled_world env s)
                     (weighted_val_sum env (validation_world env s) / real (n_val env)) epoch)))"
proof -
  from assms obtain s4 train_loss val_loss
    where r: "epoch_until_report env epoch s = Inr (s4, train_loss, val_loss)"
    using epoch_until_report_total by blast
  show ?thesis
    using train_epoch_world[OF r] epoch_until_report_world[OF r]
    by (simp split: option.splits)
qed

text \<open>One epoch, whatever its outcome, with a scheduler and a non-empty validation set.\<close>

lemma train_epoch_scheduler:
  assumes sch: "scheduler env = Some step" and nv: "n_val env \<noteq> 0" and nt: "n_train env \<noteq> 0"
  shows "scheduler_args (events (result_state (train_epoch env epoch s))) =
           scheduler_args (events s) @ [weighted_val_sum env (validation_world env s)]"
    and "val_losses (result_state (train_epoch env epoch s)) =
           val_losses s @ [weighted_val_sum env (validation_world env s) / real (n_val env)]"
    and "trial env \<noteq> None \<Longrightarrow>
         trial_reports (events (result_state (train_epoch env epoch s))) =
           trial_reports (events s)
             @ [(weighted_val_sum env (validation_world env s) / real (n_val env), epoch)]"
proof -
  from nt nv obtain s4 train_loss val_loss
    where r: "epoch_until_report env epoch s = Inr (s4, train_loss, val_loss)"
    using epoch_until_report_total by blast
  note f = epoch_until_report_Inr[OF r] and g = train_epoch_after_report[OF r]
  show "scheduler_args (events (result_state (train_epoch env epoch s))) =
           scheduler_args (events s) @ [weighted_val_sum env (validation_world env s)]"
    using f(6) g(3) sch by (simp add: scheduler_args_append split: option.splits)
  show "val_losses (result_state (train_epoch env epoch s)) =
           val_losses s @ [weighted_val_sum env (validation_world env s) / real (n_val env)]"
    using f(3,5) g(2) by simp
  show "trial_reports (events (result_state (train_epoch env epoch s))) =
           trial_reports (events s)
             @ [(weighted_val_sum env (validation_world env s) / real (n_val env), epoch)]"
    if "trial env \<noteq> None"
    using that f(3,6) g(4) sch by (auto simp: trial_reports_append)
qed

lemma train_epoch_no_training_data:
  assumes "n_train env = 0"
  shows "val_losses (result_state (train_epoch env epoch s)) = val_losses s"
    and "events (result_state (train_epoch env epoch s)) = events s"
  using assms
  by (simp_all add: train_epoch_def epoch_until_report_def result_state_def split: prod.splits)

lemma train_epoch_invariant:
  assumes sch: "scheduler env = Some step" and nv: "n_val env \<noteq> 0"
    and inv: "loss_invariant env s"
  shows "loss_invariant env (result_state (train_epoch env epoch s))"
proof (cases "n_train env = 0")
  case True
  then show ?thesis
    using inv by (auto simp: loss_invariant_def train_epoch_no_training_data)
next
  case False
  note e = train_epoch_scheduler[OF sch nv False, of epoch s]
  have a: "val_losses (result_state (train_epoch env epoch s)) =
      map (\<lambda>v. v / real (n_val env))
        (scheduler_args (events (result_state (train_epoch env epoch s))))"
    using inv e(1,2) by (simp add: loss_invariant_def)
  have b: "map fst (trial_reports (events (result_state (train_epoch env epoch s)))) =
      val_losses (result_state (train_epoch env epoch s))" if t: "trial env \<noteq> None"
  proof -
    from inv t have "map fst (trial_reports (events s)) = val_losses s"
      by (simp add: loss_invariant_def)
    with e(2) e(3)[OF t] show ?thesis by simp
  qed
  show ?thesis
    unfolding loss_invariant_def using a b by blast
qed

lemma train_loop_invariant:
  assumes sch: "scheduler env = Some step" and nv: "n_val env \<noteq> 0"
  shows "loss_invariant env s \<Longrightarrow> loss_invariant env (result_state (train_loop env epochs s))"
proof (induction epochs arbitrary: s)
  case Nil
  then show ?case by (simp add: result_state_def)
next
  case (Cons epoch epochs)
  have step: "loss_invariant env (result_state (train_epoch env epoch s))"
    using sch nv Cons.prems by (rule train_epoch_invariant)
  show ?case
  proof (cases "train_epoch env epoch s")
    case (Inl x)
    then show ?thesis using step by simp
  next
    case (Inr s')
    with step have "loss_invariant env s'" by (simp add: result_state_def)
    then have "loss_invariant env (result_state (train_loop env epochs s'))" by (rule Cons.IH)
    with Inr show ?thesis by simp
  qed
qed

text \<open>
  C9. Let a scheduler be given and the validation set not be empty. In an epoch whose
  training set is not empty either, whatever the epoch ends in, the scheduler is stepped
  exactly once, with the sum over the validation batches of loss times batch size, not yet
  divided; the value appended to the validation history is that sum divided by the number
  of validation examples, and it is the value reported to the trial, with the epoch
  number, when a trial is given. This is said twice: of the collaborators, whose state after
  the epoch is what the scheduler's step on the undivided sum, then the trial's report of
  the quotient, then \<^verbatim>\<open>should_prune()\<close> leave of the state in which the validation ran; and of
  the recorded calls. Over a whole run, in whatever state it ends: the validation history is
  the list of the scheduler's arguments, each divided by the number of validation examples,
  and with a trial it is the list of the reported values.
\<close>

theorem scheduler_step_undivided:
  assumes "scheduler env = Some step" and "n_val env \<noteq> 0"
  shows "(n_train env \<noteq> 0 \<longrightarrow>
            world (result_state (train_epoch env epoch s)) =
              (case trial env of
                 None \<Rightarrow>
                   step (validation_world env s) (weighted_val_sum env (validation_world env s))
               | Some t \<Rightarrow>
                   snd (should_prune t
                     (report t
                        (step (validation_world env s)
                           (weighted_val_sum env (validation_world env s)))
                        (weighted_val_sum env (validation_world env s) / real (n_val env))
                        epoch)))
          \<and> scheduler_args (events (result_state (train_epoch env epoch s))) =
              scheduler_args (events s) @ [weighted_val_sum env (validation_world env s)]
          \<and> val_losses (result_state (train_epoch env epoch s)) =
              val_losses s @ [weighted_val_sum env (validation_world env s) / real (n_val env)]
          \<and> (trial env \<noteq> None \<longrightarrow>
               trial_reports (events (result_state (train_epoch env epoch s))) =
                 trial_reports (events s)
                   @ [(weighted_val_sum env (validation_world env s) / real (n_val env), epoch)]))
       \<and> val_losses (result_state (train env w)) =
           map (\<lambda>v. v / real (n_val env)) (scheduler_args (events (result_state (train env w))))
       \<and> (trial env \<noteq> None \<longrightarrow>
            map fst (trial_reports (events (result_state (train env w)))) =
              val_losses (result_state (train env w)))"
proof -
  have "loss_invariant env (init_state w)"
    by (simp add: loss_invariant_def init_state_def)
  with assms have "loss_invariant env (result_state (train env w))"
    unfolding train_def by (rule train_loop_invariant)
  moreover have "world (result_state (train_epoch env epoch s)) =
              (case trial env of
                 None \<Rightarrow>
                   step (validation_world env s) (weighted_val_sum env (validation_world env s))
               | Some t \<Rightarrow>
                   snd (should_prune t
                     (report t
                        (step (validation_world env s)
                           (weighted_val_sum env (validation_world env s)))
                        (weighted_val_sum env (validation_world env s) / real (n_val env))
                        epoch)))" if "n_train env \<noteq> 0"
  proof -
    have "scheduled_world env s =
        step (validation_world env s) (weighted_val_sum env (validation_world env s))"
      using assms(1) by (simp add: scheduled_world_def)
    with train_epoch_calls[OF assms(2) that, of epoch s] show ?thesis
      by (simp only:)
  qed
  ultimately show ?thesis
    using train_epoch_scheduler[OF assms(1,2), of epoch s]
    by (auto simp: loss_invariant_def)
qed


lemmas train_eval =
  train_epoch_def epoch_until_report_def calculate_test_loss_def prune_check_def
  periodic_report_def init_state_def result_state_def Let_def

lemma ex_epoch_1:
  "train_epoch ex_env 1 (init_state ex_world0) =
     Inr \<lparr>world = \<lparr>opt_steps = 2, sched_seen = [8], trial_seen = [(2, 1)]\<rparr>,
          train_losses = [13 / 5], val_losses = [2],
          events = [SchedulerStep 8, TrialReport 2 1]\<rparr>"
  by (simp add: train_eval ex_env_def ex_trial_def ex_world0_def)

lemma ex_epoch_2:
  "train_epoch ex_env 2
     \<lparr>world = \<lparr>opt_steps = 2, sched_seen = [8], trial_seen = [(2, 1)]\<rparr>,
      train_losses = [13 / 5], val_losses = [2],
      events = [SchedulerStep 8, TrialReport 2 1]\<rparr> =
     Inl (TrialPruned,
          \<lparr>world = \<lparr>opt_steps = 4, sched_seen = [8, 16], trial_seen = [(2, 1), (4, 2)]\<rparr>,
           train_losses = [13 / 5, 13 / 5], val_losses = [2, 4],
           events = [SchedulerStep 8, TrialReport 2 1, SchedulerStep 16, TrialReport 4 2]\<rparr>)"
  by (simp add: train_eval ex_env_def ex_trial_def)

lemma ex_epochs: "[1..num_epochs ex_env] = [1, 2, 3, 4, 5]"
  by (simp add: ex_env_def upto_rec1)

lemma ex_train:
  "train ex_env ex_world0 =
     Inl (TrialPruned,
          \<lparr>world = \<lparr>opt_steps = 4, sched_seen = [8, 16], trial_seen = [(2, 1), (4, 2)]\<rparr>,
           train_losses = [13 / 5, 13 / 5], val_losses = [2, 4],
           events = [SchedulerStep 8, TrialReport 2 1, SchedulerStep 16, TrialReport 4 2]\<rparr>)"
  unfolding train_def ex_epochs by (simp add: ex_epoch_1 ex_epoch_2)

lemma ex_validation:
  "validation_world ex_env (init_state ex_world0) =
     \<lparr>opt_steps = 2, sched_seen = [], trial_seen = []\<rparr>"
  "weighted_val_sum ex_env \<lparr>opt_steps = 2, sched_seen = [], trial_seen = []\<rparr> = 8"
  by (simp_all add: weighted_val_sum_def validation_world_def init_state_def ex_env_def
      ex_world0_def)

text \<open>
  The run with stubs that keep what they are called with: the scheduler sees 8, then 16; the
  history and the trial get 2, then 4.
\<close>

theorem scheduler_step_undivided_witness:
  "scheduler ex_env = Some (\<lambda>w v. w\<lparr>sched_seen := sched_seen w @ [v]\<rparr>)
   \<and> n_val ex_env \<noteq> 0 \<and> n_train ex_env \<noteq> 0 \<and> trial ex_env \<noteq> None
   \<and> weighted_val_sum ex_env (validation_world ex_env (init_state ex_world0)) = 8
   \<and> world (result_state (train_epoch ex_env 1 (init_state ex_world0))) =
        \<lparr>opt_steps = 2, sched_seen = [8], trial_seen = [(8 / 4, 1)]\<rparr>
   \<and> scheduler_args (events (result_state (train_epoch ex_env 1 (init_state ex_world0)))) = [8]
   \<and> val_losses (result_state (train_epoch ex_env 1 (init_state ex_world0))) = [8 / 4]
   \<and> trial_reports (events (result_state (train_epoch ex_env 1 (init_state ex_world0)))) =
        [(8 / 4, 1)]
   \<and> world (result_state (train ex_env ex_world0)) =
        \<lparr>opt_steps = 4, sched_seen = [8, 16], trial_seen = [(8 / 4, 1), (16 / 4, 2)]\<rparr>
   \<and> scheduler_args (events (result_state (train ex_env ex_world0))) = [8, 16]
   \<and> val_losses (result_state (train ex_env ex_world0)) = [8 / 4, 16 / 4]
   \<and> map fst (trial_reports (events (result_state (train ex_env ex_world0)))) = [8 / 4, 16 / 4]"
proof -
  have sch: "scheduler ex_env = Some (\<lambda>w v. w\<lparr>sched_seen := sched_seen w @ [v]\<rparr>)"
    and nv: "n_val ex_env \<noteq> 0" and nt: "n_train ex_env \<noteq> 0" and tr: "trial ex_env = Some ex_trial"
    by (simp_all add: ex_env_def)
  have nv4: "real (n_val ex_env) = 4" by (simp add: ex_env_def)
  have S: "weighted_val_sum ex_env (validation_world ex_env (init_state ex_world0)) = 8"
    by (simp add: ex_validation)
  have a: "scheduler_args (events (result_state (train ex_env ex_world0))) = [8, 16]"
    and b: "world (result_state (train ex_env ex_world0)) =
        \<lparr>opt_steps = 4, sched_seen = [8, 16], trial_seen = [(8 / 4, 1), (16 / 4, 2)]\<rparr>"
    by (simp_all add: ex_train result_state_def)
  note t = scheduler_step_undivided[OF sch nv, of 1 "init_state ex_world0" ex_world0]
  from t nt tr
  have "world (result_state (train_epoch ex_env 1 (init_state ex_world0))) =
          snd (should_prune ex_trial
            (report ex_trial
               (validation_world ex_env (init_state ex_world0)\<lparr>sched_seen :=
                  sched_seen (validation_world ex_env (init_state ex_world0)) @ [8]\<rparr>)
               (8 / 4) 1))
    \<and> scheduler_args (events (result_state (train_epoch ex_env 1 (init_state ex_world0)))) =
          scheduler_args (events (init_state ex_world0)) @ [8]
    \<and> val_losses (result_state (train_epoch ex_env 1 (init_state ex_world0))) =
          val_losses (init_state ex_world0) @ [8 / 4]
    \<and> trial_reports (events (result_state (train_epoch ex_env 1 (init_state ex_world0)))) =
          trial_reports (events (init_state ex_world0)) @ [(8 / 4, 1)]
    \<and> val_losses (result_state (train ex_env ex_world0)) =
          map (\<lambda>v. v / 4) (scheduler_args (events (result_state (train ex_env ex_world0))))
    \<and> map fst (trial_reports (events (result_state (train ex_env ex_world0)))) =
          val_losses (result_state (train ex_env ex_world0))"
    unfolding S nv4 by simp
  moreover have "events (init_state ex_world0) = []" and "val_losses (init_state ex_world0) = []"
    by (simp_all add: init_state_def)
  moreover have "snd (should_prune ex_trial
            (report ex_trial
               (validation_world ex_env (init_state ex_world0)\<lparr>sched_seen :=
                  sched_seen (validation_world ex_env (init_state ex_world0)) @ [8]\<rparr>)
               (8 / 4) 1)) =
        \<lparr>opt_steps = 2, sched_seen = [8], trial_seen = [(8 / 4, 1)]\<rparr>"
    by (simp add: ex_validation ex_trial_def)
  ultimately show ?thesis
    using sch nv nt tr S a b by simp
qed

section \<open>Pruning\<close>

lemma upto_first_two: "2 \<le> n \<Longrightarrow> [1..n] = 1 # 2 # [3..n]"
  by (simp add: upto_rec1)

text \<open>
  C8. Let the run have at least two epochs, the first epoch complete without an exception,
  and the trial's \<^verbatim>\<open>should_prune()\<close> answer true in the second. Then the run ends in the
  second epoch by raising TrialPruned, which is none of the other errors. Nothing of a
  third epoch is executed: the run is the run of epochs 1 and 2 alone, and both histories
  have exactly 2 entries. The trial got one report per epoch, and the last call made before
  the exception is the report of the validation loss of epoch 2: the state of the
  collaborators at the exception is what the trial's report, given that loss and the number
  2 after the scheduler's step, and then \<^verbatim>\<open>should_prune()\<close>, which answered true, left.
\<close>

theorem train_pruned_at_epoch_2:
  assumes "2 \<le> num_epochs env"
    and "train_epoch env 1 (init_state w) = Inr s1"
    and "prune_signal env 2 s1"
  shows "\<exists>s t. train env w = Inl (TrialPruned, s)
           \<and> train env w = train_loop env [1, 2] (init_state w)
           \<and> length (train_losses s) = 2 \<and> length (val_losses s) = 2
           \<and> map snd (trial_reports (events s)) = [1, 2]
           \<and> last (val_losses s) = weighted_val_sum env (validation_world env s1) / real (n_val env)
           \<and> last (events s) = TrialReport (last (val_losses s)) 2
           \<and> trial env = Some t
           \<and> fst (should_prune t (report t (scheduled_world env s1) (last (val_losses s)) 2))
           \<and> world s =
               snd (should_prune t (report t (scheduled_world env s1) (last (val_losses s)) 2))
           \<and> TrialPruned
               \<notin> {SourceIndexError, IndexError, ValueError, RuntimeError, ZeroDivisionError}"
proof -
  from assms(3) obtain s4 train_loss val_loss t
    where r2: "epoch_until_report env 2 s1 = Inr (s4, train_loss, val_loss)"
      and t: "trial env = Some t" and stop: "fst (should_prune t (world s4))"
    by (auto simp: prune_signal_def split: sum.splits option.splits)
  define s where "s = s4\<lparr>world := snd (should_prune t (world s4))\<rparr>"
  have "prune_check env s4 = Inl (TrialPruned, s)"
    using t stop by (cases "should_prune t (world s4)") (simp add: prune_check_def s_def)
  with r2 have e2: "train_epoch env 2 s1 = Inl (TrialPruned, s)"
    by (simp add: train_epoch_def)
  from assms(2) obtain a4 tl1 vl1
    where r1: "epoch_until_report env 1 (init_state w) = Inr (a4, tl1, vl1)"
    by (auto simp: train_epoch_def split: sum.splits)
  have s1: "result_state (train_epoch env 1 (init_state w)) = s1"
    using assms(2) by (simp add: result_state_def)
  note f1 = epoch_until_report_Inr[OF r1] and g1 = train_epoch_after_report[OF r1]
  note f2 = epoch_until_report_Inr[OF r2]
  have tl1: "train_losses s1 = [tl1]" and vl1: "val_losses s1 = [vl1]"
    using f1(4,5) g1(1,2) s1 by (simp_all add: init_state_def)
  have rep1: "trial_reports (events s1) = [(vl1, 1)]"
    using f1(6) g1(4) s1 t
    by (simp add: init_state_def trial_reports_append split: option.splits)
  have ev: "events s = events s1
           @ (case scheduler env of None \<Rightarrow> []
              | Some step \<Rightarrow> [SchedulerStep (weighted_val_sum env (validation_world env s1))])
           @ [TrialReport val_loss 2]"
    using f2(6) t by (simp add: s_def)
  have lv: "last (val_losses s) = val_loss"
    using f2(5) by (simp add: s_def)
  have w4: "world s4 = report t (scheduled_world env s1) val_loss 2"
    using epoch_until_report_world[OF r2] f2(3) t by simp
  have "train env w = train_loop env [1, 2] (init_state w)"
    unfolding train_def using assms(1,2) e2 by (simp add: upto_first_two)
  moreover have "train_loop env [1, 2] (init_state w) = Inl (TrialPruned, s)"
    using assms(2) e2 by simp
  moreover have "length (train_losses s) = 2" "length (val_losses s) = 2"
    using f2(4,5) tl1 vl1 by (simp_all add: s_def)
  moreover have "map snd (trial_reports (events s)) = [1, 2]"
    using ev rep1 by (simp add: trial_reports_append split: option.splits)
  moreover have "last (val_losses s) = weighted_val_sum env (validation_world env s1) / real (n_val env)"
    using f2(3) lv by simp
  moreover have "last (events s) = TrialReport (last (val_losses s)) 2"
    using ev lv by simp
  moreover have "fst (should_prune t (report t (scheduled_world env s1) (last (val_losses s)) 2))"
    using stop w4 lv by simp
  moreover have "world s =
      snd (should_prune t (report t (scheduled_world env s1) (last (val_losses s)) 2))"
    using w4 lv by (simp add: s_def)
  ultimately show ?thesis using t by simp
qed


text \<open>
  The run with stubs, of five epochs, stops in the second; the last report the trial kept
  is the loss 4 of epoch 2.
\<close>

theorem train_pruned_at_epoch_2_witness:
  "2 \<le> num_epochs ex_env
   \<and> train_epoch ex_env 1 (init_state ex_world0) =
       Inr \<lparr>world = \<lparr>opt_steps = 2, sched_seen = [8], trial_seen = [(2, 1)]\<rparr>,
            train_losses = [13 / 5], val_losses = [2],
            events = [SchedulerStep 8, TrialReport 2 1]\<rparr>
   \<and> prune_signal ex_env 2
         \<lparr>world = \<lparr>opt_steps = 2, sched_seen = [8], trial_seen = [(2, 1)]\<rparr>,
          train_losses = [13 / 5], val_losses = [2],
          events = [SchedulerStep 8, TrialReport 2 1]\<rparr>
   \<and> train ex_env ex_world0 =
       Inl (TrialPruned,
          \<lparr>world = \<lparr>opt_steps = 4, sched_seen = [8, 16], trial_seen = [(2, 1), (4, 2)]\<rparr>,
           train_losses = [13 / 5, 13 / 5], val_losses = [2, 4],
           events = [SchedulerStep 8, TrialReport 2 1, SchedulerStep 16, TrialReport 4 2]\<rparr>)
   \<and> (\<exists>s. train ex_env ex_world0 = Inl (TrialPruned, s)
          \<and> length (train_losses s) = 2 \<and> length (val_losses s) = 2
          \<and> map snd (trial_reports (events s)) = [1, 2]
          \<and> last (events s) = TrialReport (last (val_losses s)) 2
          \<and> world s =
              snd (should_prune ex_trial
                (report ex_trial
                   (scheduled_world ex_env
                      \<lparr>world = \<lparr>opt_steps = 2, sched_seen = [8], trial_seen = [(2, 1)]\<rparr>,
                       train_losses = [13 / 5], val_losses = [2],
                       events = [SchedulerStep 8, TrialReport 2 1]\<rparr>)
                   (last (val_losses s)) 2))
          \<and> last (trial_seen (world s)) = (4, 2))"
proof -
  have n: "2 \<le> num_epochs ex_env" by (simp add: ex_env_def)
  have p: "prune_signal ex_env 2
         \<lparr>world = \<lparr>opt_steps = 2, sched_seen = [8], trial_seen = [(2, 1)]\<rparr>,
          train_losses = [13 / 5], val_losses = [2],
          events = [SchedulerStep 8, TrialReport 2 1]\<rparr>"
    by (simp add: prune_signal_def train_eval ex_env_def ex_trial_def)
  have tr: "trial ex_env = Some ex_trial" by (simp add: ex_env_def)
  from train_pruned_at_epoch_2[OF n ex_epoch_1 p]
  obtain s t where s: "train ex_env ex_world0 = Inl (TrialPruned, s)"
    and "length (train_losses s) = 2" and "length (val_losses s) = 2"
    and "map snd (trial_reports (events s)) = [1, 2]"
    and "last (events s) = TrialReport (last (val_losses s)) 2"
    and "trial ex_env = Some t"
    and "world s =
           snd (should_prune t
             (report t
                (scheduled_world ex_env
                   \<lparr>world = \<lparr>opt_steps = 2, sched_seen = [8], trial_seen = [(2, 1)]\<rparr>,
                    train_losses = [13 / 5], val_losses = [2],
                    events = [SchedulerStep 8, TrialReport 2 1]\<rparr>)
                (last (val_losses s)) 2))"
    by auto
  moreover from this tr have "t = ex_trial" by simp
  moreover from s have "last (trial_seen (world s)) = (4, 2)"
    by (auto simp: ex_train)
  ultimately have "\<exists>s. train ex_env ex_world0 = Inl (TrialPruned, s)
          \<and> length (train_losses s) = 2 \<and> length (val_losses s) = 2
          \<and> map snd (trial_reports (events s)) = [1, 2]
          \<and> last (events s) = TrialReport (last (val_losses s)) 2
          \<and> world s =
              snd (should_prune ex_trial
                (report ex_trial
                   (scheduled_world ex_env
                      \<lparr>world = \<lparr>opt_steps = 2, sched_seen = [8], trial_seen = [(2, 1)]\<rparr>,
                       train_losses = [13 / 5], val_losses = [2],
                       events = [SchedulerStep 8, TrialReport 2 1]\<rparr>)
                   (last (val_losses s)) 2))
          \<and> last (trial_seen (world s)) = (4, 2)"
    by - (rule exI[of _ s], simp)
  with n ex_epoch_1 p ex_train show ?thesis by (simp only: simp_thms)
qed

end
